theory Spec2Isabelle
  imports Main "HOL-Library.List_Lexorder" "HOL-Library.Multiset"
begin

section \<open>Data model\<close>

text \<open>
  The post and user documents of \<^verbatim>\<open>models/Post\<close> and \<^verbatim>\<open>models/User\<close>, and the
  services of \<^verbatim>\<open>services/post.service.ts\<close> that read and write them.

  An ObjectId is a 12-byte value; it is modelled as the natural number those bytes
  spell, so that equality (\<^verbatim>\<open>id.equals\<close>, \<^verbatim>\<open>id.toString()\<close>) is equality of numbers and
  the order the document store sorts ObjectIds by is the order of numbers.
  A string is a \<^typ>\<open>string\<close>, one \<^typ>\<open>char\<close> for each code unit that \<^verbatim>\<open>.length\<close> counts.
  An optional field (\<^verbatim>\<open>undefined\<close>) is an \<^typ>\<open>'a option\<close>. A \<^verbatim>\<open>Date\<close> is a number.
\<close>

type_synonym oid = nat

text \<open>
  An identifier as the services receive it, a string: falsy (empty or \<^verbatim>\<open>undefined\<close>),
  a string that does not cast to an ObjectId, or one that casts to the given ObjectId.
\<close>

datatype idarg = NoId | BadId | Id oid

record reply =
  r_id :: "oid option"
  r_content :: string
  r_author :: oid

record post =
  p_id :: oid
  p_content :: string
  p_postType :: string
  p_image :: "string option"
  p_author :: oid
  p_city :: "string option"
  p_likes :: "oid list"
  p_dislikes :: "oid list"
  p_replies :: "reply list"
  p_isActive :: bool
  p_createdAt :: nat
  p_updatedAt :: nat

record user =
  u_email :: string
  u_firstName :: string
  u_lastName :: string
  u_city :: "string option"
  u_bio :: string
  u_isVerified :: bool
  u_postsCount :: int
  u_isActive :: bool

text \<open>
  The two collections. Posts are kept in insertion order, which is the order a query
  without a deciding sort key returns them in.
\<close>

record store =
  users :: "oid \<rightharpoonup> user"
  posts :: "post list"

text \<open>What a rejected promise carries: the errors the \<^verbatim>\<open>catch\<close> blocks tell apart by name.\<close>

datatype exn = CastError | ValidationError "string list" | DuplicateKey | BSONError | RegexError

section \<open>Strings\<close>

text \<open>\<^verbatim>\<open>String.prototype.trim\<close>: white space and line terminators go from both ends.\<close>

definition is_ws :: "char \<Rightarrow> bool" where
  "is_ws c = (c \<in> set [CHR 0x09, CHR 0x0A, CHR 0x0B, CHR 0x0C, CHR 0x0D, CHR 0x20, CHR 0xA0])"

definition trim :: "string \<Rightarrow> string" where
  "trim s = rev (dropWhile is_ws (rev (dropWhile is_ws s)))"

definition lower :: "char \<Rightarrow> char" where
  "lower c = (let n = (of_char c :: nat) in if 65 \<le> n \<and> n \<le> 90 then char_of (n + 32) else c)"

definition line_terminator :: "char \<Rightarrow> bool" where
  "line_terminator c = (c = CHR 0x0A \<or> c = CHR 0x0D)"

text \<open>
  \<^verbatim>\<open>/^https?:\/\/.+\.(jpg|jpeg|png|gif|webp)$/i.test(url)\<close>: a scheme, at least one
  character that is no line terminator, a dot and one of five extensions, letters
  compared without case.
\<close>

definition urlRegex_test :: "string \<Rightarrow> bool" where
  "urlRegex_test url =
     (let l = map lower url in
      list_ex (\<lambda>scheme. list_ex (\<lambda>ext.
          let n = length scheme; m = length ext + 1 in
          n + 1 + m \<le> length l
          \<and> take n l = scheme
          \<and> drop (length l - m) l = CHR ''.'' # ext
          \<and> list_all (\<lambda>c. \<not> line_terminator c) (take (length l - m - n) (drop n url)))
        [''jpg'', ''jpeg'', ''png'', ''gif'', ''webp''])
        [''http://'', ''https://''])"

section \<open>Schema validation\<close>

definition PostType_values :: "string list" where
  "PostType_values = [''recommend'', ''help'', ''update'', ''event'']"

text \<open>
  The validators of \<^verbatim>\<open>replySchema\<close> and \<^verbatim>\<open>postSchema\<close>, path by path in the order of
  declaration; each path reports its first failing validator. \<^verbatim>\<open>required\<close> on a string
  path rejects the empty string as well as a missing value; the other validators do not
  run on a missing value.
\<close>

definition validateReply :: "reply \<Rightarrow> string list" where
  "validateReply r =
     (if r_content r = [] then [''Reply content is required'']
      else if length (r_content r) > 280 then [''Reply cannot exceed 280 characters'']
      else if length (r_content r) < 1 then [''Reply cannot be empty'']
      else [])"

definition validatePaths :: "post \<Rightarrow> string list" where
  "validatePaths p =
     (if p_content p = [] then [''Post content is required'']
      else if length (p_content p) > 280 then [''Post content cannot exceed 280 characters'']
      else if length (p_content p) < 1 then [''Post content cannot be empty'']
      else [])
     @ (if p_postType p = [] then [''Post type is required'']
        else if p_postType p \<notin> set PostType_values
          then [''Post type must be one of: recommend, help, update, event'']
        else [])
     @ (case p_image p of
          None \<Rightarrow> []
        | Some url \<Rightarrow> if url = [] \<or> urlRegex_test url then [] else [''Invalid image URL format''])
     @ (case p_city p of
          None \<Rightarrow> [''Path `city` is required.'']
        | Some c \<Rightarrow> if c = [] then [''Path `city` is required.''] else [])"

definition validatePost :: "post \<Rightarrow> string list" where
  "validatePost p = validatePaths p @ concat (map validateReply (p_replies p))"

section \<open>Persistence\<close>

definition findById :: "post list \<Rightarrow> oid \<Rightarrow> post option" where
  "findById ps i = find (\<lambda>q. p_id q = i) ps"

text \<open>The write of an existing document: the stored document with its \<^verbatim>\<open>_id\<close> is replaced.\<close>

fun updateOne :: "post \<Rightarrow> post list \<Rightarrow> post list" where
  "updateOne d [] = []"
| "updateOne d (q # qs) = (if p_id q = p_id d then d # qs else q # updateOne d qs)"

text \<open>\<^verbatim>\<open>User.findByIdAndUpdate(author, { $inc: { postsCount: n } })\<close>; no user, no change.\<close>

definition incPostsCount :: "oid \<Rightarrow> int \<Rightarrow> (oid \<rightharpoonup> user) \<Rightarrow> (oid \<rightharpoonup> user)" where
  "incPostsCount a n us =
     (case us a of None \<Rightarrow> us | Some u \<Rightarrow> us(a \<mapsto> u\<lparr>u_postsCount := u_postsCount u + n\<rparr>))"

text \<open>
  \<^verbatim>\<open>postSchema.pre('save')\<close>: both sets are taken before either list is filtered, so an
  identifier found in both lists leaves both.
\<close>

definition preSave :: "post \<Rightarrow> post" where
  "preSave this =
     (let likeSet = set (p_likes this);
          dislikeSet = set (p_dislikes this)
      in this\<lparr>p_likes := filter (\<lambda>i. i \<notin> dislikeSet) (p_likes this),
              p_dislikes := filter (\<lambda>i. i \<notin> likeSet) (p_dislikes this)\<rparr>)"

text \<open>\<^verbatim>\<open>postSchema.post('save')\<close>, given the document's \<^verbatim>\<open>isNew\<close> flag as the hook reads it.\<close>

definition postSave :: "bool \<Rightarrow> post \<Rightarrow> (oid \<rightharpoonup> user) \<Rightarrow> (oid \<rightharpoonup> user)" where
  "postSave isNew doc us = (if isNew then incPostsCount (p_author doc) 1 us else us)"

text \<open>
  \<^verbatim>\<open>document.save()\<close> at time \<open>now\<close>, for a document whose \<^verbatim>\<open>isNew\<close> flag is \<open>isNew\<close>.
  The document is validated; the \<^verbatim>\<open>pre('save')\<close> hook runs; the time stamps are set
  (\<^verbatim>\<open>updatedAt\<close> of a stored document moves when the document was changed); a new
  document is inserted, which fails on an \<^verbatim>\<open>_id\<close> already in the collection, and a
  stored one is replaced; then the \<^verbatim>\<open>post('save')\<close> hook runs. The document layer
  clears \<^verbatim>\<open>isNew\<close> when it issues the insert, so the hook, which runs once the write has
  completed, reads \<^verbatim>\<open>false\<close> for an inserted document too.
\<close>

definition save :: "store \<Rightarrow> nat \<Rightarrow> bool \<Rightarrow> post \<Rightarrow> exn + (store \<times> post)" where
  "save s now isNew this =
     (case validatePost this of
        m # ms \<Rightarrow> Inl (ValidationError (m # ms))
      | [] \<Rightarrow>
          let d = preSave this in
          if isNew then
            let d = d\<lparr>p_createdAt := now, p_updatedAt := now\<rparr> in
            if findById (posts s) (p_id d) \<noteq> None then Inl DuplicateKey
            else
              let s = s\<lparr>posts := posts s @ [d]\<rparr>;
                  isNew = False
              in Inr (s\<lparr>users := postSave isNew d (users s)\<rparr>, d)
          else
            let d = (if findById (posts s) (p_id d) = Some d then d else d\<lparr>p_updatedAt := now\<rparr>);
                s = s\<lparr>posts := updateOne d (posts s)\<rparr>
            in Inr (s\<lparr>users := postSave isNew d (users s)\<rparr>, d))"

section \<open>Instance methods of a post\<close>

text \<open>
  The methods are called on a document that \<^verbatim>\<open>findById\<close> loaded, whose \<^verbatim>\<open>isNew\<close> flag
  is \<^verbatim>\<open>false\<close>. Each returns the store after the save, and the saved document.
\<close>

definition isLikedBy :: "post \<Rightarrow> oid \<Rightarrow> bool" where
  "isLikedBy this userId = list_ex (\<lambda>i. i = userId) (p_likes this)"

definition isDislikedBy :: "post \<Rightarrow> oid \<Rightarrow> bool" where
  "isDislikedBy this userId = list_ex (\<lambda>i. i = userId) (p_dislikes this)"

definition addLike :: "store \<Rightarrow> nat \<Rightarrow> post \<Rightarrow> oid \<Rightarrow> exn + (store \<times> post)" where
  "addLike s now this userId =
     (let this = this\<lparr>p_dislikes := filter (\<lambda>i. \<not> i = userId) (p_dislikes this)\<rparr>;
          this = (if \<not> list_ex (\<lambda>i. i = userId) (p_likes this)
                  then this\<lparr>p_likes := p_likes this @ [userId]\<rparr> else this)
      in save s now False this)"

definition removeLike :: "store \<Rightarrow> nat \<Rightarrow> post \<Rightarrow> oid \<Rightarrow> exn + (store \<times> post)" where
  "removeLike s now this userId =
     save s now False (this\<lparr>p_likes := filter (\<lambda>i. \<not> i = userId) (p_likes this)\<rparr>)"

definition addDislike :: "store \<Rightarrow> nat \<Rightarrow> post \<Rightarrow> oid \<Rightarrow> exn + (store \<times> post)" where
  "addDislike s now this userId =
     (let this = this\<lparr>p_likes := filter (\<lambda>i. \<not> i = userId) (p_likes this)\<rparr>;
          this = (if \<not> list_ex (\<lambda>i. i = userId) (p_dislikes this)
                  then this\<lparr>p_dislikes := p_dislikes this @ [userId]\<rparr> else this)
      in save s now False this)"

definition removeDislike :: "store \<Rightarrow> nat \<Rightarrow> post \<Rightarrow> oid \<Rightarrow> exn + (store \<times> post)" where
  "removeDislike s now this userId =
     save s now False (this\<lparr>p_dislikes := filter (\<lambda>i. \<not> i = userId) (p_dislikes this)\<rparr>)"

text \<open>
  \<^verbatim>\<open>addReply\<close> pushes the reply, which the document array casts to an embedded document:
  the content is trimmed by the schema's setter and the reply gets the identifier
  \<open>rid\<close>, the ObjectId generated for it.
\<close>

definition addReply :: "store \<Rightarrow> nat \<Rightarrow> post \<Rightarrow> oid \<Rightarrow> string \<times> oid \<Rightarrow> exn + (store \<times> post)" where
  "addReply s now this rid r =
     save s now False
       (this\<lparr>p_replies := p_replies this
                @ [\<lparr>r_id = Some rid, r_content = trim (fst r), r_author = snd r\<rparr>]\<rparr>)"

text \<open>\<^verbatim>\<open>!reply._id?.equals(replyId)\<close> keeps a reply that has no identifier.\<close>

definition removeReply :: "store \<Rightarrow> nat \<Rightarrow> post \<Rightarrow> oid \<Rightarrow> exn + (store \<times> post)" where
  "removeReply s now this replyId =
     save s now False
       (this\<lparr>p_replies := filter (\<lambda>r. \<not> (case r_id r of None \<Rightarrow> False | Some i \<Rightarrow> i = replyId))
                            (p_replies this)\<rparr>)"

section \<open>Responses\<close>

text \<open>
  \<^verbatim>\<open>populate\<close> replaces a reference by the selected fields of the user it names, and by
  \<^verbatim>\<open>null\<close> when there is no such user.
\<close>

record author_view =
  av_firstName :: string
  av_lastName :: string
  av_email :: string
  av_bio :: string
  av_isVerified :: bool

record reply_author_view =
  rv_firstName :: string
  rv_lastName :: string
  rv_email :: string

datatype payload =
    OnePost "(post \<times> author_view option) option"
  | ManyPosts "(post \<times> author_view option \<times> reply_author_view option list) list"

record response =
  success :: bool
  message :: string
  error :: "string option"
  data :: "payload option"

definition failure :: "string \<Rightarrow> string \<Rightarrow> response" where
  "failure m e = \<lparr>success = False, message = m, error = Some e, data = None\<rparr>"

definition internalError :: response where
  "internalError = failure ''Internal server error'' ''Something went wrong''"

definition authorView :: "(oid \<rightharpoonup> user) \<Rightarrow> oid \<Rightarrow> author_view option" where
  "authorView us a =
     map_option (\<lambda>u. \<lparr>av_firstName = u_firstName u, av_lastName = u_lastName u,
                      av_email = u_email u, av_bio = u_bio u, av_isVerified = u_isVerified u\<rparr>) (us a)"

definition replyAuthorView :: "(oid \<rightharpoonup> user) \<Rightarrow> oid \<Rightarrow> reply_author_view option" where
  "replyAuthorView us a =
     map_option (\<lambda>u. \<lparr>rv_firstName = u_firstName u, rv_lastName = u_lastName u,
                      rv_email = u_email u\<rparr>) (us a)"

definition populateAuthor :: "(oid \<rightharpoonup> user) \<Rightarrow> post \<Rightarrow> post \<times> author_view option" where
  "populateAuthor us p = (p, authorView us (p_author p))"

definition populateFeed ::
  "(oid \<rightharpoonup> user) \<Rightarrow> post \<Rightarrow> post \<times> author_view option \<times> reply_author_view option list" where
  "populateFeed us p =
     (p, authorView us (p_author p), map (\<lambda>r. replyAuthorView us (r_author r)) (p_replies p))"

section \<open>Creating a post\<close>

record CreatePostRequest =
  c_content :: "string option"
  c_postType :: string
  c_image :: "string option"
  c_city :: "string option"

text \<open>\<^verbatim>\<open>x || undefined\<close> on an optional string.\<close>

definition truthy :: "string option \<Rightarrow> bool" where
  "truthy x = (case x of None \<Rightarrow> False | Some v \<Rightarrow> v \<noteq> [])"

definition or_undefined :: "string option \<Rightarrow> string option" where
  "or_undefined x = (if truthy x then x else None)"

text \<open>
  \<^verbatim>\<open>new Post({...})\<close> with the generated identifier \<open>newId\<close>: the schema's setters trim
  the content and the image, the lists start empty and \<^verbatim>\<open>isActive\<close> takes its default.
  The time stamps are written by \<open>save\<close>.
\<close>

definition newPost :: "oid \<Rightarrow> string \<Rightarrow> string \<Rightarrow> string option \<Rightarrow> oid \<Rightarrow> string option \<Rightarrow> post" where
  "newPost newId content postType imageUrl author city =
     \<lparr>p_id = newId, p_content = trim content, p_postType = postType,
      p_image = map_option trim imageUrl, p_author = author, p_city = city,
      p_likes = [], p_dislikes = [], p_replies = [], p_isActive = True,
      p_createdAt = 0, p_updatedAt = 0\<rparr>"

definition createPost_try ::
  "store \<Rightarrow> nat \<Rightarrow> oid \<Rightarrow> idarg \<Rightarrow> CreatePostRequest \<Rightarrow> exn + (store \<times> response)" where
  "createPost_try s now newId userId postData =
     (case userId of
        NoId \<Rightarrow> Inr (s, failure ''User ID is required'' ''Missing user ID'')
      | BadId \<Rightarrow> Inl CastError
      | Id uid \<Rightarrow>
         (case users s uid of
            None \<Rightarrow> Inr (s, failure ''User not found'' ''User does not exist'')
          | Some user \<Rightarrow>
             if \<not> u_isActive user
               then Inr (s, failure ''Account is deactivated'' ''Account status inactive'')
             else
              (case c_content postData of
                 None \<Rightarrow> Inr (s, failure ''Post content is required'' ''Missing post content'')
               | Some content \<Rightarrow>
                  if trim content = []
                    then Inr (s, failure ''Post content is required'' ''Missing post content'')
                  else if c_postType postData = [] \<or> c_postType postData \<notin> set PostType_values
                    then Inr (s, failure ''Valid post type is required'' ''Invalid post type'')
                  else if length (trim content) > 280
                    then Inr (s, failure ''Post content cannot exceed 280 characters''
                                    ''Content too long'')
                  else
                   (case save s now True
                           (newPost newId (trim content) (c_postType postData)
                              (or_undefined (map_option trim (c_image postData)))
                              uid (or_undefined (c_city postData))) of
                      Inl e \<Rightarrow> Inl e
                    | Inr (s', savedPost) \<Rightarrow>
                        Inr (s', \<lparr>success = True, message = ''Post created successfully'',
                                  error = None,
                                  data = Some (OnePost (map_option (populateAuthor (users s'))
                                           (findById (posts s') (p_id savedPost))))\<rparr>)))))"

text \<open>\<^verbatim>\<open>Array.prototype.join(', ')\<close>.\<close>

fun join :: "string list \<Rightarrow> string" where
  "join [] = []"
| "join [m] = m"
| "join (m # ms) = m @ '', '' @ join ms"

definition createPost ::
  "store \<Rightarrow> nat \<Rightarrow> oid \<Rightarrow> idarg \<Rightarrow> CreatePostRequest \<Rightarrow> store \<times> response" where
  "createPost s now newId userId postData =
     (case createPost_try s now newId userId postData of
        Inr r \<Rightarrow> r
      | Inl (ValidationError errors) \<Rightarrow> (s, failure ''Validation failed'' (join errors))
      | Inl _ \<Rightarrow> (s, internalError))"

section \<open>Toggling a like or a dislike\<close>

definition togglePostLike_try ::
  "store \<Rightarrow> nat \<Rightarrow> idarg \<Rightarrow> idarg \<Rightarrow> exn + (store \<times> response)" where
  "togglePostLike_try s now postId userId =
     (if postId = NoId \<or> userId = NoId
        then Inr (s, failure ''Post ID and User ID are required'' ''Missing required parameters'')
      else case postId of
        NoId \<Rightarrow> Inr (s, failure ''Post ID and User ID are required'' ''Missing required parameters'')
      | BadId \<Rightarrow> Inl CastError
      | Id pid \<Rightarrow>
         (case findById (posts s) pid of
            None \<Rightarrow> Inr (s, failure ''Post not found'' ''Post does not exist'')
          | Some post \<Rightarrow>
             if \<not> p_isActive post
               then Inr (s, failure ''Cannot like inactive post'' ''Post inactive'')
             else
              (case userId of
                 Id userObjectId \<Rightarrow>
                  (let isLiked = isLikedBy post userObjectId in
                   case (if isLiked then removeLike s now post userObjectId
                         else addLike s now post userObjectId) of
                     Inl e \<Rightarrow> Inl e
                   | Inr (s', _) \<Rightarrow>
                       Inr (s', \<lparr>success = True,
                                 message = (if isLiked then ''Post unliked successfully''
                                            else ''Post liked successfully''),
                                 error = None,
                                 data = Some (OnePost (map_option (populateAuthor (users s'))
                                          (findById (posts s') (p_id post))))\<rparr>))
               | _ \<Rightarrow> Inl BSONError)))"

definition togglePostLike :: "store \<Rightarrow> nat \<Rightarrow> idarg \<Rightarrow> idarg \<Rightarrow> store \<times> response" where
  "togglePostLike s now postId userId =
     (case togglePostLike_try s now postId userId of
        Inr r \<Rightarrow> r
      | Inl CastError \<Rightarrow> (s, failure ''Invalid post ID format'' ''Invalid ObjectId'')
      | Inl _ \<Rightarrow> (s, internalError))"

definition togglePostDislike_try ::
  "store \<Rightarrow> nat \<Rightarrow> idarg \<Rightarrow> idarg \<Rightarrow> exn + (store \<times> response)" where
  "togglePostDislike_try s now postId userId =
     (if postId = NoId \<or> userId = NoId
        then Inr (s, failure ''Post ID and User ID are required'' ''Missing required parameters'')
      else case postId of
        NoId \<Rightarrow> Inr (s, failure ''Post ID and User ID are required'' ''Missing required parameters'')
      | BadId \<Rightarrow> Inl CastError
      | Id pid \<Rightarrow>
         (case findById (posts s) pid of
            None \<Rightarrow> Inr (s, failure ''Post not found'' ''Post does not exist'')
          | Some post \<Rightarrow>
             if \<not> p_isActive post
               then Inr (s, failure ''Cannot dislike inactive post'' ''Post inactive'')
             else
              (case userId of
                 Id userObjectId \<Rightarrow>
                  (let isDisliked = isDislikedBy post userObjectId in
                   case (if isDisliked then removeDislike s now post userObjectId
                         else addDislike s now post userObjectId) of
                     Inl e \<Rightarrow> Inl e
                   | Inr (s', _) \<Rightarrow>
                       Inr (s', \<lparr>success = True,
                                 message = (if isDisliked then ''Post undisliked successfully''
                                            else ''Post disliked successfully''),
                                 error = None,
                                 data = Some (OnePost (map_option (populateAuthor (users s'))
                                          (findById (posts s') (p_id post))))\<rparr>))
               | _ \<Rightarrow> Inl BSONError)))"

definition togglePostDislike :: "store \<Rightarrow> nat \<Rightarrow> idarg \<Rightarrow> idarg \<Rightarrow> store \<times> response" where
  "togglePostDislike s now postId userId =
     (case togglePostDislike_try s now postId userId of
        Inr r \<Rightarrow> r
      | Inl CastError \<Rightarrow> (s, failure ''Invalid post ID format'' ''Invalid ObjectId'')
      | Inl _ \<Rightarrow> (s, internalError))"

section \<open>Feeds\<close>

record PostQueryParams =
  q_postType :: "string option"
  q_author :: idarg
  q_city :: "string option"
  q_sortBy :: "string option"
  q_search :: "string option"

text \<open>The filter object that \<^verbatim>\<open>getPostsFeed\<close> builds; an absent key is \<open>None\<close>.\<close>

record filter_obj =
  f_isActive :: bool
  f_city :: "string option"
  f_postType :: "string option"
  f_author :: "oid option"
  f_content :: "string option"

definition buildFilter :: "PostQueryParams \<Rightarrow> exn + filter_obj" where
  "buildFilter q =
     (case q_author q of
        BadId \<Rightarrow> Inl BSONError
      | a \<Rightarrow>
         Inr \<lparr>f_isActive = True,
              f_city = (if truthy (map_option trim (q_city q)) then map_option trim (q_city q)
                        else None),
              f_postType = (case q_postType q of
                              None \<Rightarrow> None
                            | Some t \<Rightarrow> if t \<noteq> [] \<and> t \<in> set PostType_values then Some t
                                        else None),
              f_author = (case a of Id i \<Rightarrow> Some i | _ \<Rightarrow> None),
              f_content = (if truthy (map_option trim (q_search q))
                           then map_option trim (q_search q) else None)\<rparr>)"

text \<open>
  The document store's side of \<^verbatim>\<open>Post.find(filter).sort(sort)\<close>. A key of the filter
  selects the posts whose field equals its value. The \<^verbatim>\<open>$regex\<close> operator belongs to the
  store: \<open>rx\<close> stands for it, giving for a pattern the case-insensitive test it
  compiles to, or \<open>None\<close> for a pattern the store rejects.
\<close>

definition matches :: "(string \<Rightarrow> bool) option \<Rightarrow> filter_obj \<Rightarrow> post \<Rightarrow> bool" where
  "matches test f p =
     (p_isActive p = f_isActive f
      \<and> (case f_city f of None \<Rightarrow> True | Some c \<Rightarrow> p_city p = Some c)
      \<and> (case f_postType f of None \<Rightarrow> True | Some t \<Rightarrow> p_postType p = t)
      \<and> (case f_author f of None \<Rightarrow> True | Some a \<Rightarrow> p_author p = a)
      \<and> (case test of None \<Rightarrow> True | Some t \<Rightarrow> t (p_content p)))"

definition findPosts ::
  "(string \<Rightarrow> (string \<Rightarrow> bool) option) \<Rightarrow> filter_obj \<Rightarrow> post list \<Rightarrow> exn + post list" where
  "findPosts rx f ps =
     (case f_content f of
        None \<Rightarrow> Inr (filter (matches None f) ps)
      | Some pat \<Rightarrow>
         (case rx pat of
            None \<Rightarrow> Inl RegexError
          | Some t \<Rightarrow> Inr (filter (matches (Some t) f) ps)))"

text \<open>
  A sort specification lists fields with a direction, \<open>1\<close> or \<open>-1\<close>. The store compares
  an array-valued field by one of its elements, the least for an ascending and the
  greatest for a descending sort, and puts an empty array below every value. Posts
  that agree on every key keep their order.
\<close>

datatype sort_field = Likes | CreatedAt

definition sortSpec :: "string option \<Rightarrow> (sort_field \<times> int) list" where
  "sortSpec sortBy =
     (let sortBy = (case sortBy of None \<Rightarrow> ''newest'' | Some v \<Rightarrow> v) in
      if sortBy = ''oldest'' then [(CreatedAt, 1)]
      else if sortBy = ''mostLiked'' then [(Likes, -1), (CreatedAt, -1)]
      else [(CreatedAt, -1)])"

definition fieldKey :: "sort_field \<Rightarrow> int \<Rightarrow> post \<Rightarrow> int" where
  "fieldKey fld dir p =
     (case fld of
        CreatedAt \<Rightarrow> int (p_createdAt p)
      | Likes \<Rightarrow>
         (case p_likes p of
            [] \<Rightarrow> -1
          | i # is \<Rightarrow> if dir < 0 then int (fold max is i) else int (fold min is i)))"

definition sortKeys :: "(sort_field \<times> int) list \<Rightarrow> post \<Rightarrow> int list" where
  "sortKeys spec p = map (\<lambda>(fld, dir). dir * fieldKey fld dir p) spec"

definition mongoSort :: "(sort_field \<times> int) list \<Rightarrow> post list \<Rightarrow> post list" where
  "mongoSort spec ps = sort_key (sortKeys spec) ps"

definition getPostsFeed_try ::
  "(string \<Rightarrow> (string \<Rightarrow> bool) option) \<Rightarrow> store \<Rightarrow> PostQueryParams \<Rightarrow> exn + response" where
  "getPostsFeed_try rx s queryParams =
     (case buildFilter queryParams of
        Inl e \<Rightarrow> Inl e
      | Inr f \<Rightarrow>
         (case findPosts rx f (posts s) of
            Inl e \<Rightarrow> Inl e
          | Inr found \<Rightarrow>
             Inr \<lparr>success = True, message = ''Posts retrieved successfully'', error = None,
                  data = Some (ManyPosts (map (populateFeed (users s))
                                 (mongoSort (sortSpec (q_sortBy queryParams)) found)))\<rparr>))"

definition getPostsFeed ::
  "(string \<Rightarrow> (string \<Rightarrow> bool) option) \<Rightarrow> store \<Rightarrow> PostQueryParams \<Rightarrow> response" where
  "getPostsFeed rx s queryParams =
     (case getPostsFeed_try rx s queryParams of Inr r \<Rightarrow> r | Inl _ \<Rightarrow> internalError)"

definition getUserCityFeed_try ::
  "(string \<Rightarrow> (string \<Rightarrow> bool) option) \<Rightarrow> store \<Rightarrow> idarg \<Rightarrow> PostQueryParams \<Rightarrow> exn + response" where
  "getUserCityFeed_try rx s userId queryParams =
     (case userId of
        NoId \<Rightarrow> Inr (failure ''User ID is required'' ''Missing user ID'')
      | BadId \<Rightarrow> Inl CastError
      | Id uid \<Rightarrow>
         (case users s uid of
            None \<Rightarrow> Inr (failure ''User not found'' ''User does not exist'')
          | Some user \<Rightarrow>
             if \<not> u_isActive user
               then Inr (failure ''Account is deactivated'' ''Account status inactive'')
             else
               let cityFilter = (if truthy (q_city queryParams) then q_city queryParams
                                 else u_city user)
               in Inr (getPostsFeed rx s (queryParams\<lparr>q_city := cityFilter\<rparr>))))"

definition getUserCityFeed ::
  "(string \<Rightarrow> (string \<Rightarrow> bool) option) \<Rightarrow> store \<Rightarrow> idarg \<Rightarrow> PostQueryParams \<Rightarrow> response" where
  "getUserCityFeed rx s userId queryParams =
     (case getUserCityFeed_try rx s userId queryParams of
        Inr r \<Rightarrow> r
      | Inl CastError \<Rightarrow> failure ''Invalid user ID format'' ''Invalid ObjectId''
      | Inl _ \<Rightarrow> internalError)"

text \<open>The status code \<^verbatim>\<open>handleGetUserCityFeed\<close> answers a service response with.\<close>

definition cityFeedStatus :: "response \<Rightarrow> nat" where
  "cityFeedStatus result =
     (if \<not> success result then
        (if error result = Some ''User does not exist'' then 404
         else if error result = Some ''Account status inactive'' then 403
         else if error result = Some ''Invalid ObjectId'' then 400
         else 500)
      else 200)"

text \<open>The posts a response carries.\<close>

definition feedPosts :: "response \<Rightarrow> post list" where
  "feedPosts r = (case data r of Some (ManyPosts ps) \<Rightarrow> map fst ps | _ \<Rightarrow> [])"

section \<open>Sequences of toggles\<close>

datatype toggle = ToggleLike idarg idarg | ToggleDislike idarg idarg

fun applyToggle :: "store \<Rightarrow> nat \<times> toggle \<Rightarrow> store" where
  "applyToggle s (now, ToggleLike postId userId) = fst (togglePostLike s now postId userId)"
| "applyToggle s (now, ToggleDislike postId userId) = fst (togglePostDislike s now postId userId)"

definition runToggles :: "store \<Rightarrow> (nat \<times> toggle) list \<Rightarrow> store" where
  "runToggles s ops = foldl applyToggle s ops"

text \<open>\<open>togglePostLike\<close> called once at each of the given times, with the same arguments.\<close>

definition toggleLikeTimes :: "store \<Rightarrow> nat list \<Rightarrow> idarg \<Rightarrow> idarg \<Rightarrow> store" where
  "toggleLikeTimes s nows postId userId =
     foldl (\<lambda>s now. fst (togglePostLike s now postId userId)) s nows"

text \<open>The invariant on the two lists of a post: no duplicates, and no identifier in both.\<close>

definition likes_inv :: "post \<Rightarrow> bool" where
  "likes_inv p =
     (distinct (p_likes p) \<and> distinct (p_dislikes p)
      \<and> list_all (\<lambda>i. i \<notin> set (p_dislikes p)) (p_likes p))"

text \<open>
  Two versions of a post that differ at most in the like list, the dislike list and the
  update time stamp.
\<close>

definition same_but_votes :: "post \<Rightarrow> post \<Rightarrow> bool" where
  "same_but_votes p p' =
     (p_id p' = p_id p \<and> p_content p' = p_content p \<and> p_postType p' = p_postType p
      \<and> p_image p' = p_image p \<and> p_author p' = p_author p \<and> p_city p' = p_city p
      \<and> p_replies p' = p_replies p \<and> p_isActive p' = p_isActive p
      \<and> p_createdAt p' = p_createdAt p)"

section \<open>Example data\<close>

text \<open>
  Five users, of whom the fourth has the empty city of a new account and the fifth is
  deactivated, and the store after the first of them has created a post.
\<close>

definition user_A :: user where
  "user_A = \<lparr>u_email = ''a@example.org'', u_firstName = ''Ann'', u_lastName = ''Ames'',
              u_city = Some ''Austin'', u_bio = '''', u_isVerified = False,
              u_postsCount = 0, u_isActive = True\<rparr>"

definition user_B :: user where
  "user_B = user_A\<lparr>u_email := ''b@example.org'', u_firstName := ''Bob''\<rparr>"

definition user_C :: user where
  "user_C = user_A\<lparr>u_email := ''c@example.org'', u_firstName := ''Cy'', u_city := Some ''Denver''\<rparr>"

definition user_D :: user where
  "user_D = user_A\<lparr>u_email := ''d@example.org'', u_firstName := '''', u_lastName := '''',
                    u_city := Some ''''\<rparr>"

definition user_E :: user where
  "user_E = user_A\<lparr>u_email := ''e@example.org'', u_firstName := ''Eve'', u_isActive := False\<rparr>"

definition store0 :: store where
  "store0 = \<lparr>users = [1 \<mapsto> user_A, 2 \<mapsto> user_B, 3 \<mapsto> user_C, 4 \<mapsto> user_D,
                      5 \<mapsto> user_E],
              posts = []\<rparr>"

definition taco :: CreatePostRequest where
  "taco = \<lparr>c_content = Some ''Great taco spot downtown!'', c_postType = ''recommend'',
            c_image = None, c_city = Some ''Austin''\<rparr>"

definition store1 :: store where
  "store1 = fst (createPost store0 100 10 (Id 1) taco)"

text \<open>The second user has liked that post, or has disliked it.\<close>

definition store2 :: store where
  "store2 = fst (togglePostLike store1 101 (Id 10) (Id 2))"

definition store3 :: store where
  "store3 = fst (togglePostDislike store1 101 (Id 10) (Id 2))"

definition ops1 :: "(nat \<times> toggle) list" where
  "ops1 = [(101, ToggleLike (Id 10) (Id 2)), (102, ToggleDislike (Id 10) (Id 2)),
           (103, ToggleLike (Id 10) (Id 3)), (104, ToggleLike (Id 10) (Id 1))]"


text \<open>
  A second post, by the second user. The first post is then liked by the third user and
  the second post by the first two users.
\<close>

definition post_B :: CreatePostRequest where
  "post_B = \<lparr>c_content = Some ''Road closed on 5th'', c_postType = ''update'',
              c_image = None, c_city = Some ''Austin''\<rparr>"

definition storeF :: store where
  "storeF = runToggles (fst (createPost store1 200 11 (Id 2) post_B))
              [(201, ToggleLike (Id 11) (Id 1)), (202, ToggleLike (Id 11) (Id 2)),
               (203, ToggleLike (Id 10) (Id 3))]"

definition mostLiked :: PostQueryParams where
  "mostLiked = \<lparr>q_postType = None, q_author = NoId, q_city = None,
                 q_sortBy = Some ''mostLiked'', q_search = None\<rparr>"

definition noFilter :: PostQueryParams where
  "noFilter = \<lparr>q_postType = None, q_author = NoId, q_city = None,
                 q_sortBy = None, q_search = None\<rparr>"

text \<open>Requests whose content has 280 and 281 characters, without and with a city.\<close>

definition long280 :: CreatePostRequest where
  "long280 = \<lparr>c_content = Some (replicate 280 CHR ''a''), c_postType = ''help'',
               c_image = None, c_city = None\<rparr>"

definition ok280 :: CreatePostRequest where
  "ok280 = long280\<lparr>c_city := Some ''Austin''\<rparr>"

definition long281 :: CreatePostRequest where
  "long281 = ok280\<lparr>c_content := Some (replicate 281 CHR ''a'')\<rparr>"

text \<open>The first post with one reply.\<close>

definition reply70 :: reply where
  "reply70 = \<lparr>r_id = Some 70, r_content = ''First!'', r_author = 3\<rparr>"

definition storeR :: store where
  "storeR = (case addReply store1 104 (posts store1 ! 0) 70 (''First!'', 3) of
               Inr (s, d) \<Rightarrow> s
             | Inl e \<Rightarrow> store1)"

text \<open>
  A user whose stored city begins with a space, as a profile update stores it, and the
  store after that user has created a post in the city so spelled.
\<close>

definition user_F :: user where
  "user_F = user_A\<lparr>u_email := ''f@example.org'', u_firstName := ''Flo'',
                    u_city := Some '' Austin''\<rparr>"

definition storeP :: store where
  "storeP = fst (createPost (store0\<lparr>users := (users store0)(6 \<mapsto> user_F)\<rparr>) 100 10 (Id 6)
                   (taco\<lparr>c_city := Some '' Austin''\<rparr>))"

section \<open>Lemmas on the store and on saving\<close>


lemma findById_id: "findById ps i = Some p \<Longrightarrow> p_id p = i"
  by (auto simp: findById_def find_Some_iff)

lemma findById_mem: "findById ps i = Some p \<Longrightarrow> p \<in> set ps"
  by (auto simp: findById_def find_Some_iff)

lemma findById_updateOne:
  "findById (updateOne d ps) i =
     (if i = p_id d \<and> findById ps i \<noteq> None then Some d else findById ps i)"
  by (induction ps) (auto simp: findById_def)

lemma length_updateOne: "length (updateOne d ps) = length ps"
  by (induction ps) auto

lemma updateOne_same: "findById ps (p_id d) = Some d \<Longrightarrow> updateOne d ps = ps"
  by (induction ps) (auto simp: findById_def split: if_splits)

lemma validatePost_frame:
  "validatePost (p\<lparr>p_likes := l\<rparr>) = validatePost p"
  "validatePost (p\<lparr>p_dislikes := d\<rparr>) = validatePost p"
  "validatePost (p\<lparr>p_updatedAt := t\<rparr>) = validatePost p"
  "validatePost (p\<lparr>p_createdAt := t\<rparr>) = validatePost p"
  by (simp_all add: validatePost_def validatePaths_def)

lemma validatePost_preSave: "validatePost (preSave p) = validatePost p"
  by (simp add: preSave_def Let_def validatePost_frame)

lemma save_stored:
  assumes "validatePost this = []"
  shows "save s now False this =
     (let d = preSave this;
          d = (if findById (posts s) (p_id d) = Some d then d else d\<lparr>p_updatedAt := now\<rparr>)
      in Inr (s\<lparr>posts := updateOne d (posts s)\<rparr>, d))"
  using assms by (simp add: save_def postSave_def Let_def)

lemma save_invalid:
  "validatePost this \<noteq> [] \<Longrightarrow> save s now isNew this = Inl (ValidationError (validatePost this))"
  by (cases "validatePost this") (simp_all add: save_def)

lemma preSave_disjoint:
  "list_all (\<lambda>i. i \<notin> set (p_dislikes p)) (p_likes p) \<Longrightarrow> preSave p = p"
proof -
  assume a: "list_all (\<lambda>i. i \<notin> set (p_dislikes p)) (p_likes p)"
  then have 1: "filter (\<lambda>i. i \<notin> set (p_dislikes p)) (p_likes p) = p_likes p"
    by (simp add: list_all_iff)
  from a have 2: "filter (\<lambda>i. i \<notin> set (p_likes p)) (p_dislikes p) = p_dislikes p"
    by (auto simp: list_all_iff filter_id_conv)
  show ?thesis by (simp add: preSave_def Let_def 1 2)
qed

lemma save_stored_ex:
  assumes "validatePost this = []"
  shows "\<exists>t. save s now False this =
           Inr (s\<lparr>posts := updateOne ((preSave this)\<lparr>p_updatedAt := t\<rparr>) (posts s)\<rparr>,
                (preSave this)\<lparr>p_updatedAt := t\<rparr>)"
proof (cases "findById (posts s) (p_id (preSave this)) = Some (preSave this)")
  case True
  have e: "(preSave this)\<lparr>p_updatedAt := p_updatedAt (preSave this)\<rparr> = preSave this" by simp
  have "save s now False this = Inr (s\<lparr>posts := updateOne (preSave this) (posts s)\<rparr>, preSave this)"
    using True assms by (simp add: save_stored Let_def)
  then have "save s now False this =
           Inr (s\<lparr>posts := updateOne ((preSave this)\<lparr>p_updatedAt := p_updatedAt (preSave this)\<rparr>) (posts s)\<rparr>,
                (preSave this)\<lparr>p_updatedAt := p_updatedAt (preSave this)\<rparr>)"
    by (simp only: e)
  then show ?thesis by (rule exI)
next
  case False
  have "save s now False this =
           Inr (s\<lparr>posts := updateOne ((preSave this)\<lparr>p_updatedAt := now\<rparr>) (posts s)\<rparr>,
                (preSave this)\<lparr>p_updatedAt := now\<rparr>)"
    using False assms by (simp add: save_stored Let_def)
  then show ?thesis by (rule exI)
qed


lemma p_id_preSave: "p_id (preSave p) = p_id p"
  by (simp add: preSave_def Let_def)

lemma isLikedBy_iff: "isLikedBy p u = (u \<in> set (p_likes p))"
  by (auto simp: isLikedBy_def list_ex_iff)

lemma isDislikedBy_iff: "isDislikedBy p u = (u \<in> set (p_dislikes p))"
  by (auto simp: isDislikedBy_def list_ex_iff)

lemma togglePostLike_step:
  assumes f: "findById (posts s) pid = Some p" and a: "p_isActive p"
    and m: "(if isLikedBy p u then removeLike s now p u else addLike s now p u) = Inr (s', d)"
  shows "togglePostLike s now (Id pid) (Id u) =
      (s', \<lparr>success = True,
            message = (if isLikedBy p u then ''Post unliked successfully''
                       else ''Post liked successfully''),
            error = None,
            data = Some (OnePost (map_option (populateAuthor (users s'))
                                          (findById (posts s') (p_id p))))\<rparr>)"
proof -
  have "togglePostLike_try s now (Id pid) (Id u) =  Inr
      (s', \<lparr>success = True,
            message = (if isLikedBy p u then ''Post unliked successfully''
                       else ''Post liked successfully''),
            error = None,
            data = Some (OnePost (map_option (populateAuthor (users s'))
                                          (findById (posts s') (p_id p))))\<rparr>)"
    unfolding togglePostLike_try_def using f a m by (simp add: Let_def)
  then show ?thesis by (simp add: togglePostLike_def)
qed


lemma preSave_fields:
  "p_likes (preSave q) = filter (\<lambda>i. i \<notin> set (p_dislikes q)) (p_likes q)"
  "p_dislikes (preSave q) = filter (\<lambda>i. i \<notin> set (p_likes q)) (p_dislikes q)"
  by (simp_all add: preSave_def Let_def)

lemma same_but_votes_preSave:
  "same_but_votes p q \<Longrightarrow> same_but_votes p ((preSave q)\<lparr>p_updatedAt := t\<rparr>)"
  by (simp add: same_but_votes_def preSave_def Let_def)

lemma same_but_votes_upd:
  "same_but_votes p (p\<lparr>p_likes := l\<rparr>)"
  "same_but_votes p (p\<lparr>p_dislikes := d, p_likes := l\<rparr>)"
  "same_but_votes p (p\<lparr>p_dislikes := d\<rparr>)"
  "same_but_votes p (p\<lparr>p_likes := l, p_dislikes := d\<rparr>)"
  by (simp_all add: same_but_votes_def)

lemma togglePostLike_found:
  assumes f: "findById (posts s) pid = Some p" and a: "p_isActive p" and v: "validatePost p = []"
  shows "\<exists>p'. togglePostLike s now (Id pid) (Id u) =
       (s\<lparr>posts := updateOne p' (posts s)\<rparr>,
        \<lparr>success = True,
         message = (if u \<in> set (p_likes p) then ''Post unliked successfully''
                    else ''Post liked successfully''),
         error = None,
         data = Some (OnePost (Some (populateAuthor (users s) p')))\<rparr>)
    \<and> p_id p' = pid \<and> same_but_votes p p'
    \<and> (u \<in> set (p_likes p) \<longrightarrow>
       p_likes p' = filter (\<lambda>i. i \<notin> set (p_dislikes p)) (filter (\<lambda>i. i \<noteq> u) (p_likes p))
       \<and> p_dislikes p' = filter (\<lambda>i. i \<notin> set (filter (\<lambda>i. i \<noteq> u) (p_likes p))) (p_dislikes p))
    \<and> (u \<notin> set (p_likes p) \<longrightarrow>
       p_likes p' = filter (\<lambda>i. i \<notin> set (filter (\<lambda>i. i \<noteq> u) (p_dislikes p))) (p_likes p @ [u])
       \<and> p_dislikes p' = filter (\<lambda>i. i \<notin> set (p_likes p @ [u])) (filter (\<lambda>i. i \<noteq> u) (p_dislikes p)))"
proof -
  have pid: "p_id p = pid" using f by (rule findById_id)
  define m where "m = (if u \<in> set (p_likes p)
      then p\<lparr>p_likes := filter (\<lambda>i. \<not> i = u) (p_likes p)\<rparr>
      else p\<lparr>p_dislikes := filter (\<lambda>i. \<not> i = u) (p_dislikes p), p_likes := p_likes p @ [u]\<rparr>)"
  have vm: "validatePost m = []" using v by (simp add: m_def validatePost_frame)
  have idm: "p_id m = pid" using pid by (simp add: m_def)
  have sm: "same_but_votes p m" by (simp add: m_def same_but_votes_upd)
  obtain t where t: "save s now False m =
           Inr (s\<lparr>posts := updateOne ((preSave m)\<lparr>p_updatedAt := t\<rparr>) (posts s)\<rparr>,
                (preSave m)\<lparr>p_updatedAt := t\<rparr>)"
    using save_stored_ex[OF vm] by blast
  define p' where "p' = (preSave m)\<lparr>p_updatedAt := t\<rparr>"
  have idp: "p_id p' = pid" using idm by (simp add: p'_def p_id_preSave)
  have meth: "(if isLikedBy p u then removeLike s now p u else addLike s now p u)
                = Inr (s\<lparr>posts := updateOne p' (posts s)\<rparr>, p')"
  proof (cases "u \<in> set (p_likes p)")
    case True
    then have "m = p\<lparr>p_likes := filter (\<lambda>i. \<not> i = u) (p_likes p)\<rparr>" by (simp add: m_def)
    with t True show ?thesis by (simp add: isLikedBy_iff removeLike_def p'_def)
  next
    case False
    then have "m = p\<lparr>p_dislikes := filter (\<lambda>i. \<not> i = u) (p_dislikes p), p_likes := p_likes p @ [u]\<rparr>"
      by (simp add: m_def)
    with t False show ?thesis
      by (simp add: isLikedBy_iff addLike_def list_ex_iff Let_def p'_def)
  qed
  have fnd: "findById (posts (s\<lparr>posts := updateOne p' (posts s)\<rparr>)) (p_id p) = Some p'"
    using f idp pid by (simp add: findById_updateOne)
  have 1: "togglePostLike s now (Id pid) (Id u) =
       (s\<lparr>posts := updateOne p' (posts s)\<rparr>,
        \<lparr>success = True,
         message = (if u \<in> set (p_likes p) then ''Post unliked successfully''
                    else ''Post liked successfully''),
         error = None,
         data = Some (OnePost (Some (populateAuthor (users s) p')))\<rparr>)"
    unfolding togglePostLike_step[OF f a meth] fnd by (simp add: isLikedBy_iff)
  have 3: "same_but_votes p p'" unfolding p'_def using sm by (rule same_but_votes_preSave)
  have 4: "u \<in> set (p_likes p) \<Longrightarrow>
       p_likes p' = filter (\<lambda>i. i \<notin> set (p_dislikes p)) (filter (\<lambda>i. i \<noteq> u) (p_likes p))
       \<and> p_dislikes p' = filter (\<lambda>i. i \<notin> set (filter (\<lambda>i. i \<noteq> u) (p_likes p))) (p_dislikes p)"
    by (simp add: p'_def preSave_fields m_def)
  have 5: "u \<notin> set (p_likes p) \<Longrightarrow>
       p_likes p' = filter (\<lambda>i. i \<notin> set (filter (\<lambda>i. i \<noteq> u) (p_dislikes p))) (p_likes p @ [u])
       \<and> p_dislikes p' = filter (\<lambda>i. i \<notin> set (p_likes p @ [u])) (filter (\<lambda>i. i \<noteq> u) (p_dislikes p))"
    by (simp add: p'_def preSave_fields m_def)
  from 1 idp 3 4 5 show ?thesis by blast
qed


lemma togglePostDislike_step:
  assumes f: "findById (posts s) pid = Some p" and a: "p_isActive p"
    and m: "(if isDislikedBy p u then removeDislike s now p u else addDislike s now p u) = Inr (s', d)"
  shows "togglePostDislike s now (Id pid) (Id u) =
      (s', \<lparr>success = True,
            message = (if isDislikedBy p u then ''Post undisliked successfully''
                       else ''Post disliked successfully''),
            error = None,
            data = Some (OnePost (map_option (populateAuthor (users s'))
                                          (findById (posts s') (p_id p))))\<rparr>)"
proof -
  have "togglePostDislike_try s now (Id pid) (Id u) =  Inr
      (s', \<lparr>success = True,
            message = (if isDislikedBy p u then ''Post undisliked successfully''
                       else ''Post disliked successfully''),
            error = None,
            data = Some (OnePost (map_option (populateAuthor (users s'))
                                          (findById (posts s') (p_id p))))\<rparr>)"
    unfolding togglePostDislike_try_def using f a m by (simp add: Let_def)
  then show ?thesis by (simp add: togglePostDislike_def)
qed

lemma togglePostDislike_found:
  assumes f: "findById (posts s) pid = Some p" and a: "p_isActive p" and v: "validatePost p = []"
  shows "\<exists>p'. togglePostDislike s now (Id pid) (Id u) =
       (s\<lparr>posts := updateOne p' (posts s)\<rparr>,
        \<lparr>success = True,
         message = (if u \<in> set (p_dislikes p) then ''Post undisliked successfully''
                    else ''Post disliked successfully''),
         error = None,
         data = Some (OnePost (Some (populateAuthor (users s) p')))\<rparr>)
    \<and> p_id p' = pid \<and> same_but_votes p p'
    \<and> (u \<in> set (p_dislikes p) \<longrightarrow>
       p_likes p' = filter (\<lambda>i. i \<notin> set (filter (\<lambda>i. i \<noteq> u) (p_dislikes p))) (p_likes p)
       \<and> p_dislikes p' = filter (\<lambda>i. i \<notin> set (p_likes p)) (filter (\<lambda>i. i \<noteq> u) (p_dislikes p)))
    \<and> (u \<notin> set (p_dislikes p) \<longrightarrow>
       p_likes p' = filter (\<lambda>i. i \<notin> set (p_dislikes p @ [u])) (filter (\<lambda>i. i \<noteq> u) (p_likes p))
       \<and> p_dislikes p' = filter (\<lambda>i. i \<notin> set (filter (\<lambda>i. i \<noteq> u) (p_likes p))) (p_dislikes p @ [u]))"
proof -
  have pid: "p_id p = pid" using f by (rule findById_id)
  define m where "m = (if u \<in> set (p_dislikes p)
      then p\<lparr>p_dislikes := filter (\<lambda>i. \<not> i = u) (p_dislikes p)\<rparr>
      else p\<lparr>p_likes := filter (\<lambda>i. \<not> i = u) (p_likes p), p_dislikes := p_dislikes p @ [u]\<rparr>)"
  have vm: "validatePost m = []" using v by (simp add: m_def validatePost_frame)
  have idm: "p_id m = pid" using pid by (simp add: m_def)
  have sm: "same_but_votes p m" by (simp add: m_def same_but_votes_upd)
  obtain t where t: "save s now False m =
           Inr (s\<lparr>posts := updateOne ((preSave m)\<lparr>p_updatedAt := t\<rparr>) (posts s)\<rparr>,
                (preSave m)\<lparr>p_updatedAt := t\<rparr>)"
    using save_stored_ex[OF vm] by blast
  define p' where "p' = (preSave m)\<lparr>p_updatedAt := t\<rparr>"
  have idp: "p_id p' = pid" using idm by (simp add: p'_def p_id_preSave)
  have meth: "(if isDislikedBy p u then removeDislike s now p u else addDislike s now p u)
                = Inr (s\<lparr>posts := updateOne p' (posts s)\<rparr>, p')"
  proof (cases "u \<in> set (p_dislikes p)")
    case True
    then have "m = p\<lparr>p_dislikes := filter (\<lambda>i. \<not> i = u) (p_dislikes p)\<rparr>" by (simp add: m_def)
    with t True show ?thesis by (simp add: isDislikedBy_iff removeDislike_def p'_def)
  next
    case False
    then have "m = p\<lparr>p_likes := filter (\<lambda>i. \<not> i = u) (p_likes p), p_dislikes := p_dislikes p @ [u]\<rparr>"
      by (simp add: m_def)
    with t False show ?thesis
      by (simp add: isDislikedBy_iff addDislike_def list_ex_iff Let_def p'_def)
  qed
  have fnd: "findById (posts (s\<lparr>posts := updateOne p' (posts s)\<rparr>)) (p_id p) = Some p'"
    using f idp pid by (simp add: findById_updateOne)
  have 1: "togglePostDislike s now (Id pid) (Id u) =
       (s\<lparr>posts := updateOne p' (posts s)\<rparr>,
        \<lparr>success = True,
         message = (if u \<in> set (p_dislikes p) then ''Post undisliked successfully''
                    else ''Post disliked successfully''),
         error = None,
         data = Some (OnePost (Some (populateAuthor (users s) p')))\<rparr>)"
    unfolding togglePostDislike_step[OF f a meth] fnd by (simp add: isDislikedBy_iff)
  have 3: "same_but_votes p p'" unfolding p'_def using sm by (rule same_but_votes_preSave)
  have 4: "u \<in> set (p_dislikes p) \<Longrightarrow>
       p_likes p' = filter (\<lambda>i. i \<notin> set (filter (\<lambda>i. i \<noteq> u) (p_dislikes p))) (p_likes p)
       \<and> p_dislikes p' = filter (\<lambda>i. i \<notin> set (p_likes p)) (filter (\<lambda>i. i \<noteq> u) (p_dislikes p))"
    by (simp add: p'_def preSave_fields m_def)
  have 5: "u \<notin> set (p_dislikes p) \<Longrightarrow>
       p_likes p' = filter (\<lambda>i. i \<notin> set (p_dislikes p @ [u])) (filter (\<lambda>i. i \<noteq> u) (p_likes p))
       \<and> p_dislikes p' = filter (\<lambda>i. i \<notin> set (filter (\<lambda>i. i \<noteq> u) (p_likes p))) (p_dislikes p @ [u])"
    by (simp add: p'_def preSave_fields m_def)
  from 1 idp 3 4 5 show ?thesis by blast
qed

text \<open>A toggle that does not reach a successful save leaves the store as it was.\<close>

lemma togglePostLike_unchanged:
  assumes "\<not> (\<exists>pid u p. postId = Id pid \<and> userId = Id u \<and> findById (posts s) pid = Some p
              \<and> p_isActive p \<and> validatePost p = [])"
  shows "fst (togglePostLike s now postId userId) = s"
proof -
  have "\<exists>r. togglePostLike_try s now postId userId = Inr (s, r) \<or> (\<exists>e. togglePostLike_try s now postId userId = Inl e)"
    using assms
    by (cases postId; cases userId)
       (auto simp: togglePostLike_try_def Let_def removeLike_def addLike_def save_invalid
          validatePost_frame split: option.splits)
  then show ?thesis
    by (auto simp: togglePostLike_def split: exn.splits)
qed

lemma togglePostDislike_unchanged:
  assumes "\<not> (\<exists>pid u p. postId = Id pid \<and> userId = Id u \<and> findById (posts s) pid = Some p
              \<and> p_isActive p \<and> validatePost p = [])"
  shows "fst (togglePostDislike s now postId userId) = s"
proof -
  have "\<exists>r. togglePostDislike_try s now postId userId = Inr (s, r) \<or> (\<exists>e. togglePostDislike_try s now postId userId = Inl e)"
    using assms
    by (cases postId; cases userId)
       (auto simp: togglePostDislike_try_def Let_def removeDislike_def addDislike_def save_invalid
          validatePost_frame split: option.splits)
  then show ?thesis
    by (auto simp: togglePostDislike_def split: exn.splits)
qed


lemma updateOne_nth:
  "findById ps (p_id d) = Some p \<Longrightarrow> i < length ps \<Longrightarrow>
     updateOne d ps ! i = ps ! i \<or> (ps ! i = p \<and> updateOne d ps ! i = d)"
proof (induction ps arbitrary: i)
  case Nil
  then show ?case by simp
next
  case (Cons q qs)
  show ?case
  proof (cases "p_id q = p_id d")
    case True
    with Cons.prems show ?thesis by (cases i) (auto simp: findById_def)
  next
    case False
    with Cons.prems have "findById qs (p_id d) = Some p" by (simp add: findById_def)
    with Cons.IH Cons.prems False show ?thesis by (cases i) auto
  qed
qed

lemma likes_inv_like:
  assumes "likes_inv p"
    and "u \<in> set (p_likes p) \<longrightarrow>
       p_likes p' = filter (\<lambda>i. i \<notin> set (p_dislikes p)) (filter (\<lambda>i. i \<noteq> u) (p_likes p))
       \<and> p_dislikes p' = filter (\<lambda>i. i \<notin> set (filter (\<lambda>i. i \<noteq> u) (p_likes p))) (p_dislikes p)"
    and "u \<notin> set (p_likes p) \<longrightarrow>
       p_likes p' = filter (\<lambda>i. i \<notin> set (filter (\<lambda>i. i \<noteq> u) (p_dislikes p))) (p_likes p @ [u])
       \<and> p_dislikes p' = filter (\<lambda>i. i \<notin> set (p_likes p @ [u])) (filter (\<lambda>i. i \<noteq> u) (p_dislikes p))"
  shows "likes_inv p'"
  using assms by (cases "u \<in> set (p_likes p)") (auto simp: likes_inv_def list_all_iff)

lemma likes_inv_dislike:
  assumes "likes_inv p"
    and "u \<in> set (p_dislikes p) \<longrightarrow>
       p_likes p' = filter (\<lambda>i. i \<notin> set (filter (\<lambda>i. i \<noteq> u) (p_dislikes p))) (p_likes p)
       \<and> p_dislikes p' = filter (\<lambda>i. i \<notin> set (p_likes p)) (filter (\<lambda>i. i \<noteq> u) (p_dislikes p))"
    and "u \<notin> set (p_dislikes p) \<longrightarrow>
       p_likes p' = filter (\<lambda>i. i \<notin> set (p_dislikes p @ [u])) (filter (\<lambda>i. i \<noteq> u) (p_likes p))
       \<and> p_dislikes p' = filter (\<lambda>i. i \<notin> set (filter (\<lambda>i. i \<noteq> u) (p_likes p))) (p_dislikes p @ [u])"
  shows "likes_inv p'"
  using assms by (cases "u \<in> set (p_dislikes p)") (auto simp: likes_inv_def list_all_iff)

lemma same_but_votes_refl: "same_but_votes p p"
  by (simp add: same_but_votes_def)

lemma togglePostLike_nth:
  fixes s :: store and now :: nat and postId userId :: idarg
  assumes i: "i < length (posts s)"
  defines "s' \<equiv> fst (togglePostLike s now postId userId)"
  shows "users s' = users s \<and> length (posts s') = length (posts s)
         \<and> same_but_votes (posts s ! i) (posts s' ! i)
         \<and> (likes_inv (posts s ! i) \<longrightarrow> likes_inv (posts s' ! i))
         \<and> (postId \<noteq> Id (p_id (posts s ! i)) \<longrightarrow> posts s' ! i = posts s ! i)"
proof (cases "\<exists>pid u p. postId = Id pid \<and> userId = Id u \<and> findById (posts s) pid = Some p
              \<and> p_isActive p \<and> validatePost p = []")
  case False
  then have "s' = s" unfolding s'_def by (rule togglePostLike_unchanged)
  then show ?thesis by (simp add: same_but_votes_refl)
next
  case True
  then obtain pid u p where ids: "postId = Id pid" "userId = Id u"
    and f: "findById (posts s) pid = Some p" and a: "p_isActive p" and v: "validatePost p = []"
    by blast
  obtain p' where
    t: "togglePostLike s now (Id pid) (Id u) =
       (s\<lparr>posts := updateOne p' (posts s)\<rparr>,
        \<lparr>success = True,
         message = (if u \<in> set (p_likes p) then ''Post unliked successfully''
                    else ''Post liked successfully''),
         error = None,
         data = Some (OnePost (Some (populateAuthor (users s) p')))\<rparr>)"
    and idp: "p_id p' = pid" and sb: "same_but_votes p p'"
    and l1: "u \<in> set (p_likes p) \<longrightarrow>
       p_likes p' = filter (\<lambda>i. i \<notin> set (p_dislikes p)) (filter (\<lambda>i. i \<noteq> u) (p_likes p))
       \<and> p_dislikes p' = filter (\<lambda>i. i \<notin> set (filter (\<lambda>i. i \<noteq> u) (p_likes p))) (p_dislikes p)"
    and l2: "u \<notin> set (p_likes p) \<longrightarrow>
       p_likes p' = filter (\<lambda>i. i \<notin> set (filter (\<lambda>i. i \<noteq> u) (p_dislikes p))) (p_likes p @ [u])
       \<and> p_dislikes p' = filter (\<lambda>i. i \<notin> set (p_likes p @ [u])) (filter (\<lambda>i. i \<noteq> u) (p_dislikes p))"
    using togglePostLike_found[OF f a v, of now u] by blast
  have s': "s' = s\<lparr>posts := updateOne p' (posts s)\<rparr>" unfolding s'_def ids t by simp
  have inv: "likes_inv p \<Longrightarrow> likes_inv p'" by (rule likes_inv_like[OF _ l1 l2])
  have pidp: "p_id p = pid" using f by (rule findById_id)
  from f idp have "findById (posts s) (p_id p') = Some p" by simp
  from updateOne_nth[OF this i]
  have "updateOne p' (posts s) ! i = posts s ! i \<or> (posts s ! i = p \<and> updateOne p' (posts s) ! i = p')" .
  then show ?thesis
  proof
    assume "updateOne p' (posts s) ! i = posts s ! i"
    then show ?thesis by (simp add: s' length_updateOne same_but_votes_refl)
  next
    assume "posts s ! i = p \<and> updateOne p' (posts s) ! i = p'"
    then show ?thesis using sb inv pidp ids by (simp add: s' length_updateOne)
  qed
qed


lemma togglePostDislike_nth:
  fixes s :: store and now :: nat and postId userId :: idarg
  assumes i: "i < length (posts s)"
  defines "s' \<equiv> fst (togglePostDislike s now postId userId)"
  shows "users s' = users s \<and> length (posts s') = length (posts s)
         \<and> same_but_votes (posts s ! i) (posts s' ! i)
         \<and> (likes_inv (posts s ! i) \<longrightarrow> likes_inv (posts s' ! i))
         \<and> (postId \<noteq> Id (p_id (posts s ! i)) \<longrightarrow> posts s' ! i = posts s ! i)"
proof (cases "\<exists>pid u p. postId = Id pid \<and> userId = Id u \<and> findById (posts s) pid = Some p
              \<and> p_isActive p \<and> validatePost p = []")
  case False
  then have "s' = s" unfolding s'_def by (rule togglePostDislike_unchanged)
  then show ?thesis by (simp add: same_but_votes_refl)
next
  case True
  then obtain pid u p where ids: "postId = Id pid" "userId = Id u"
    and f: "findById (posts s) pid = Some p" and a: "p_isActive p" and v: "validatePost p = []"
    by blast
  obtain p' where
    t: "togglePostDislike s now (Id pid) (Id u) =
       (s\<lparr>posts := updateOne p' (posts s)\<rparr>,
        \<lparr>success = True,
         message = (if u \<in> set (p_dislikes p) then ''Post undisliked successfully''
                    else ''Post disliked successfully''),
         error = None,
         data = Some (OnePost (Some (populateAuthor (users s) p')))\<rparr>)"
    and idp: "p_id p' = pid" and sb: "same_but_votes p p'"
    and l1: "u \<in> set (p_dislikes p) \<longrightarrow>
       p_likes p' = filter (\<lambda>i. i \<notin> set (filter (\<lambda>i. i \<noteq> u) (p_dislikes p))) (p_likes p)
       \<and> p_dislikes p' = filter (\<lambda>i. i \<notin> set (p_likes p)) (filter (\<lambda>i. i \<noteq> u) (p_dislikes p))"
    and l2: "u \<notin> set (p_dislikes p) \<longrightarrow>
       p_likes p' = filter (\<lambda>i. i \<notin> set (p_dislikes p @ [u])) (filter (\<lambda>i. i \<noteq> u) (p_likes p))
       \<and> p_dislikes p' = filter (\<lambda>i. i \<notin> set (filter (\<lambda>i. i \<noteq> u) (p_likes p))) (p_dislikes p @ [u])"
    using togglePostDislike_found[OF f a v, of now u] by blast
  have s': "s' = s\<lparr>posts := updateOne p' (posts s)\<rparr>" unfolding s'_def ids t by simp
  have inv: "likes_inv p \<Longrightarrow> likes_inv p'" by (rule likes_inv_dislike[OF _ l1 l2])
  have pidp: "p_id p = pid" using f by (rule findById_id)
  from f idp have "findById (posts s) (p_id p') = Some p" by simp
  from updateOne_nth[OF this i]
  have "updateOne p' (posts s) ! i = posts s ! i \<or> (posts s ! i = p \<and> updateOne p' (posts s) ! i = p')" .
  then show ?thesis
  proof
    assume "updateOne p' (posts s) ! i = posts s ! i"
    then show ?thesis by (simp add: s' length_updateOne same_but_votes_refl)
  next
    assume "posts s ! i = p \<and> updateOne p' (posts s) ! i = p'"
    then show ?thesis using sb inv pidp ids by (simp add: s' length_updateOne)
  qed
qed


lemma applyToggle_nth:
  assumes i: "i < length (posts s)"
  shows "users (applyToggle s op) = users s \<and> length (posts (applyToggle s op)) = length (posts s)
         \<and> same_but_votes (posts s ! i) (posts (applyToggle s op) ! i)
         \<and> (likes_inv (posts s ! i) \<longrightarrow> likes_inv (posts (applyToggle s op) ! i))"
proof (cases op)
  case (Pair now t)
  show ?thesis
  proof (cases t)
    case (ToggleLike postId userId)
    with Pair togglePostLike_nth[OF i, of now postId userId] show ?thesis by simp
  next
    case (ToggleDislike postId userId)
    with Pair togglePostDislike_nth[OF i, of now postId userId] show ?thesis by simp
  qed
qed

lemma same_but_votes_trans:
  "same_but_votes p q \<Longrightarrow> same_but_votes q r \<Longrightarrow> same_but_votes p r"
  by (simp add: same_but_votes_def)

lemma runToggles_nth:
  assumes "i < length (posts s)"
  shows "length (posts (runToggles s ops)) = length (posts s)
         \<and> same_but_votes (posts s ! i) (posts (runToggles s ops) ! i)
         \<and> (likes_inv (posts s ! i) \<longrightarrow> likes_inv (posts (runToggles s ops) ! i))"
  using assms
proof (induction ops arbitrary: s)
  case Nil
  then show ?case by (simp add: runToggles_def same_but_votes_refl)
next
  case (Cons op ops)
  from applyToggle_nth[OF Cons.prems, of op]
  have l: "length (posts (applyToggle s op)) = length (posts s)"
    and sb: "same_but_votes (posts s ! i) (posts (applyToggle s op) ! i)"
    and inv: "likes_inv (posts s ! i) \<longrightarrow> likes_inv (posts (applyToggle s op) ! i)"
    by simp_all
  from l Cons.prems have i': "i < length (posts (applyToggle s op))" by simp
  from Cons.IH[OF i'] l sb inv show ?case
    by (auto simp: runToggles_def intro: same_but_votes_trans)
qed

lemma count_list_distinct: "distinct xs \<Longrightarrow> count_list xs x \<le> 1"
  by (induction xs) (auto simp: count_list_0_iff)

lemma togglePostLike_users:
  "users (fst (togglePostLike s now postId userId)) = users s
   \<and> length (posts (fst (togglePostLike s now postId userId))) = length (posts s)"
proof (cases "\<exists>pid u p. postId = Id pid \<and> userId = Id u \<and> findById (posts s) pid = Some p
              \<and> p_isActive p \<and> validatePost p = []")
  case False
  then have "fst (togglePostLike s now postId userId) = s" by (rule togglePostLike_unchanged)
  then show ?thesis by simp
next
  case True
  then obtain pid u p where ids: "postId = Id pid" "userId = Id u"
    and f: "findById (posts s) pid = Some p" and a: "p_isActive p" and v: "validatePost p = []"
    by blast
  from togglePostLike_found[OF f a v, of now u] obtain p' r where
    "togglePostLike s now (Id pid) (Id u) = (s\<lparr>posts := updateOne p' (posts s)\<rparr>, r)"
    by blast
  then show ?thesis by (simp add: ids length_updateOne)
qed

lemma togglePostDislike_users:
  "users (fst (togglePostDislike s now postId userId)) = users s
   \<and> length (posts (fst (togglePostDislike s now postId userId))) = length (posts s)"
proof (cases "\<exists>pid u p. postId = Id pid \<and> userId = Id u \<and> findById (posts s) pid = Some p
              \<and> p_isActive p \<and> validatePost p = []")
  case False
  then have "fst (togglePostDislike s now postId userId) = s" by (rule togglePostDislike_unchanged)
  then show ?thesis by simp
next
  case True
  then obtain pid u p where ids: "postId = Id pid" "userId = Id u"
    and f: "findById (posts s) pid = Some p" and a: "p_isActive p" and v: "validatePost p = []"
    by blast
  from togglePostDislike_found[OF f a v, of now u] obtain p' r where
    "togglePostDislike s now (Id pid) (Id u) = (s\<lparr>posts := updateOne p' (posts s)\<rparr>, r)"
    by blast
  then show ?thesis by (simp add: ids length_updateOne)
qed

section \<open>Lemmas on a single toggle\<close>

lemma validatePost_same: "same_but_votes p p' \<Longrightarrow> validatePost p' = validatePost p"
  by (simp add: same_but_votes_def validatePost_def validatePaths_def)

lemma disjoint_filters:
  assumes "list_all (\<lambda>i. i \<notin> set D) L"
  shows "filter (\<lambda>i. i \<notin> set D) (filter (\<lambda>i. i \<noteq> u) L) = filter (\<lambda>i. i \<noteq> u) L"
    and "filter (\<lambda>i. i \<notin> set (filter (\<lambda>i. i \<noteq> u) L)) D = D"
    and "u \<notin> set L \<Longrightarrow> filter (\<lambda>i. i \<notin> set (filter (\<lambda>i. i \<noteq> u) D)) (L @ [u]) = L @ [u]"
    and "filter (\<lambda>i. i \<notin> set (L @ [u])) (filter (\<lambda>i. i \<noteq> u) D) = filter (\<lambda>i. i \<noteq> u) D"
    and "u \<in> set L \<Longrightarrow> filter (\<lambda>i. i \<noteq> u) D = D"
  using assms by (auto simp: list_all_iff filter_id_conv intro!: filter_cong)

lemma togglePostLike_flip:
  assumes f: "findById (posts s) pid = Some p" and a: "p_isActive p" and v: "validatePost p = []"
    and d: "list_all (\<lambda>i. i \<notin> set (p_dislikes p)) (p_likes p)"
  shows "\<exists>p'. findById (posts (fst (togglePostLike s now (Id pid) (Id u)))) pid = Some p'
     \<and> same_but_votes p p'
     \<and> p_likes p' = (if u \<in> set (p_likes p) then filter (\<lambda>i. i \<noteq> u) (p_likes p)
                      else p_likes p @ [u])
     \<and> p_dislikes p' = filter (\<lambda>i. i \<noteq> u) (p_dislikes p)
     \<and> snd (togglePostLike s now (Id pid) (Id u)) =
        \<lparr>success = True,
         message = (if u \<in> set (p_likes p) then ''Post unliked successfully''
                    else ''Post liked successfully''),
         error = None,
         data = Some (OnePost (Some (populateAuthor (users s) p')))\<rparr>"
proof -
  from togglePostLike_found[OF f a v, of now u] obtain p' where
    t: "togglePostLike s now (Id pid) (Id u) =
       (s\<lparr>posts := updateOne p' (posts s)\<rparr>,
        \<lparr>success = True,
         message = (if u \<in> set (p_likes p) then ''Post unliked successfully''
                    else ''Post liked successfully''),
         error = None,
         data = Some (OnePost (Some (populateAuthor (users s) p')))\<rparr>)"
    and idp: "p_id p' = pid" and sb: "same_but_votes p p'"
    and l1: "u \<in> set (p_likes p) \<longrightarrow>
       p_likes p' = filter (\<lambda>i. i \<notin> set (p_dislikes p)) (filter (\<lambda>i. i \<noteq> u) (p_likes p))
       \<and> p_dislikes p' = filter (\<lambda>i. i \<notin> set (filter (\<lambda>i. i \<noteq> u) (p_likes p))) (p_dislikes p)"
    and l2: "u \<notin> set (p_likes p) \<longrightarrow>
       p_likes p' = filter (\<lambda>i. i \<notin> set (filter (\<lambda>i. i \<noteq> u) (p_dislikes p))) (p_likes p @ [u])
       \<and> p_dislikes p' = filter (\<lambda>i. i \<notin> set (p_likes p @ [u])) (filter (\<lambda>i. i \<noteq> u) (p_dislikes p))"
    by blast
  have fnd: "findById (posts (fst (togglePostLike s now (Id pid) (Id u)))) pid = Some p'"
    using f idp by (simp add: t findById_updateOne)
  have LD: "p_likes p' = (if u \<in> set (p_likes p) then filter (\<lambda>i. i \<noteq> u) (p_likes p)
                      else p_likes p @ [u])
      \<and> p_dislikes p' = filter (\<lambda>i. i \<noteq> u) (p_dislikes p)"
  proof (cases "u \<in> set (p_likes p)")
    case True
    with l1 show ?thesis
      by (simp only: disjoint_filters(1,2)[OF d] disjoint_filters(5)[OF d True] if_True simp_thms)
  next
    case False
    with l2 show ?thesis
      by (simp only: disjoint_filters(3)[OF d False] disjoint_filters(4)[OF d] if_False simp_thms)
  qed
  from fnd sb LD show ?thesis by (simp add: t)
qed


lemma disjoint_sym:
  "list_all (\<lambda>i. i \<notin> set D) L \<Longrightarrow> list_all (\<lambda>i. i \<notin> set L) D"
  by (auto simp: list_all_iff)

lemma togglePostDislike_flip:
  assumes f: "findById (posts s) pid = Some p" and a: "p_isActive p" and v: "validatePost p = []"
    and d: "list_all (\<lambda>i. i \<notin> set (p_dislikes p)) (p_likes p)"
  shows "\<exists>p'. findById (posts (fst (togglePostDislike s now (Id pid) (Id u)))) pid = Some p'
     \<and> same_but_votes p p'
     \<and> p_dislikes p' = (if u \<in> set (p_dislikes p) then filter (\<lambda>i. i \<noteq> u) (p_dislikes p)
                         else p_dislikes p @ [u])
     \<and> p_likes p' = filter (\<lambda>i. i \<noteq> u) (p_likes p)
     \<and> snd (togglePostDislike s now (Id pid) (Id u)) =
        \<lparr>success = True,
         message = (if u \<in> set (p_dislikes p) then ''Post undisliked successfully''
                    else ''Post disliked successfully''),
         error = None,
         data = Some (OnePost (Some (populateAuthor (users s) p')))\<rparr>"
proof -
  from togglePostDislike_found[OF f a v, of now u] obtain p' where
    t: "togglePostDislike s now (Id pid) (Id u) =
       (s\<lparr>posts := updateOne p' (posts s)\<rparr>,
        \<lparr>success = True,
         message = (if u \<in> set (p_dislikes p) then ''Post undisliked successfully''
                    else ''Post disliked successfully''),
         error = None,
         data = Some (OnePost (Some (populateAuthor (users s) p')))\<rparr>)"
    and idp: "p_id p' = pid" and sb: "same_but_votes p p'"
    and l1: "u \<in> set (p_dislikes p) \<longrightarrow>
       p_likes p' = filter (\<lambda>i. i \<notin> set (filter (\<lambda>i. i \<noteq> u) (p_dislikes p))) (p_likes p)
       \<and> p_dislikes p' = filter (\<lambda>i. i \<notin> set (p_likes p)) (filter (\<lambda>i. i \<noteq> u) (p_dislikes p))"
    and l2: "u \<notin> set (p_dislikes p) \<longrightarrow>
       p_likes p' = filter (\<lambda>i. i \<notin> set (p_dislikes p @ [u])) (filter (\<lambda>i. i \<noteq> u) (p_likes p))
       \<and> p_dislikes p' = filter (\<lambda>i. i \<notin> set (filter (\<lambda>i. i \<noteq> u) (p_likes p))) (p_dislikes p @ [u])"
    by blast
  have fnd: "findById (posts (fst (togglePostDislike s now (Id pid) (Id u)))) pid = Some p'"
    using f idp by (simp add: t findById_updateOne)
  note d' = disjoint_sym[OF d]
  have LD: "p_dislikes p' = (if u \<in> set (p_dislikes p) then filter (\<lambda>i. i \<noteq> u) (p_dislikes p)
                         else p_dislikes p @ [u])
      \<and> p_likes p' = filter (\<lambda>i. i \<noteq> u) (p_likes p)"
  proof (cases "u \<in> set (p_dislikes p)")
    case True
    with l1 show ?thesis
      by (simp only: disjoint_filters(1,2)[OF d'] disjoint_filters(5)[OF d' True] if_True simp_thms)
  next
    case False
    with l2 show ?thesis
      by (simp only: disjoint_filters(3)[OF d' False] disjoint_filters(4)[OF d'] if_False simp_thms)
  qed
  from fnd sb LD show ?thesis by (simp add: t)
qed

lemma toggleLikeTimes_Cons:
  "toggleLikeTimes s (now # nows) postId userId
     = toggleLikeTimes (fst (togglePostLike s now postId userId)) nows postId userId"
  by (simp add: toggleLikeTimes_def)

lemma same_but_votes_active: "same_but_votes p p' \<Longrightarrow> p_isActive p' = p_isActive p"
  by (simp add: same_but_votes_def)

section \<open>Lemmas on replies\<close>

lemma validatePaths_replies: "validatePaths (p\<lparr>p_replies := rs\<rparr>) = validatePaths p"
  by (simp add: validatePaths_def)

lemma validatePost_addReply:
  "validatePost this = [] \<Longrightarrow> validateReply r = [] \<Longrightarrow>
     validatePost (this\<lparr>p_replies := p_replies this @ [r]\<rparr>) = []"
  by (simp add: validatePost_def validatePaths_replies)

lemma validatePost_filterReplies:
  "validatePost this = [] \<Longrightarrow>
     validatePost (this\<lparr>p_replies := filter P (p_replies this)\<rparr>) = []"
  by (simp add: validatePost_def validatePaths_replies)

lemma p_replies_preSave: "p_replies (preSave p) = p_replies p"
  by (simp add: preSave_def Let_def)

lemma removeReply_replies:
  assumes v: "validatePost this = []"
  shows "\<exists>s' d. removeReply s now this x = Inr (s', d)
       \<and> p_replies d = filter (\<lambda>r. r_id r \<noteq> Some x) (p_replies this)
       \<and> validatePost d = [] \<and> p_id d = p_id this
       \<and> (findById (posts s) (p_id this) \<noteq> None \<longrightarrow> findById (posts s') (p_id this) = Some d)"
proof -
  let ?m = "this\<lparr>p_replies := filter (\<lambda>r. \<not> (case r_id r of None \<Rightarrow> False | Some i \<Rightarrow> i = x))
                            (p_replies this)\<rparr>"
  have vm: "validatePost ?m = []" using v by (rule validatePost_filterReplies)
  from save_stored_ex[OF vm, of s now] obtain t where
    t: "save s now False ?m =
           Inr (s\<lparr>posts := updateOne ((preSave ?m)\<lparr>p_updatedAt := t\<rparr>) (posts s)\<rparr>,
                (preSave ?m)\<lparr>p_updatedAt := t\<rparr>)"
    by blast
  have e: "(\<lambda>r. \<not> (case r_id r of None \<Rightarrow> False | Some i \<Rightarrow> i = x)) = (\<lambda>r. r_id r \<noteq> Some x)"
    by (auto split: option.splits)
  have r: "p_replies ((preSave ?m)\<lparr>p_updatedAt := t\<rparr>) = filter (\<lambda>r. r_id r \<noteq> Some x) (p_replies this)"
    by (simp add: p_replies_preSave e)
  have v': "validatePost ((preSave ?m)\<lparr>p_updatedAt := t\<rparr>) = []"
    using vm by (simp add: validatePost_frame validatePost_preSave)
  have i: "p_id ((preSave ?m)\<lparr>p_updatedAt := t\<rparr>) = p_id this" by (simp add: p_id_preSave)
  have f: "findById (posts s) (p_id this) \<noteq> None \<longrightarrow>
      findById (posts (s\<lparr>posts := updateOne ((preSave ?m)\<lparr>p_updatedAt := t\<rparr>) (posts s)\<rparr>)) (p_id this)
        = Some ((preSave ?m)\<lparr>p_updatedAt := t\<rparr>)"
    by (simp add: findById_updateOne p_id_preSave)
  have "removeReply s now this x = Inr (s\<lparr>posts := updateOne ((preSave ?m)\<lparr>p_updatedAt := t\<rparr>) (posts s)\<rparr>,
                (preSave ?m)\<lparr>p_updatedAt := t\<rparr>)"
    using t by (simp add: removeReply_def)
  with r v' i f show ?thesis by blast
qed

lemma addReply_replies:
  assumes v: "validatePost this = []"
    and c: "trim (fst r) \<noteq> []" "length (trim (fst r)) \<le> 280"
  shows "\<exists>s' d. addReply s now this rid r = Inr (s', d)
       \<and> p_replies d = p_replies this
            @ [\<lparr>r_id = Some rid, r_content = trim (fst r), r_author = snd r\<rparr>]
       \<and> validatePost d = [] \<and> p_id d = p_id this
       \<and> (findById (posts s) (p_id this) \<noteq> None \<longrightarrow> findById (posts s') (p_id this) = Some d)"
proof -
  let ?n = "\<lparr>r_id = Some rid, r_content = trim (fst r), r_author = snd r\<rparr>"
  let ?m = "this\<lparr>p_replies := p_replies this @ [?n]\<rparr>"
  have vn: "validateReply ?n = []" using c by (simp add: validateReply_def)
  have vm: "validatePost ?m = []" using v vn by (rule validatePost_addReply)
  from save_stored_ex[OF vm, of s now] obtain t where
    t: "save s now False ?m =
           Inr (s\<lparr>posts := updateOne ((preSave ?m)\<lparr>p_updatedAt := t\<rparr>) (posts s)\<rparr>,
                (preSave ?m)\<lparr>p_updatedAt := t\<rparr>)"
    by blast
  have r: "p_replies ((preSave ?m)\<lparr>p_updatedAt := t\<rparr>) = p_replies this @ [?n]"
    by (simp add: p_replies_preSave)
  have v': "validatePost ((preSave ?m)\<lparr>p_updatedAt := t\<rparr>) = []"
    using vm by (simp add: validatePost_frame validatePost_preSave)
  have i: "p_id ((preSave ?m)\<lparr>p_updatedAt := t\<rparr>) = p_id this" by (simp add: p_id_preSave)
  have f: "findById (posts s) (p_id this) \<noteq> None \<longrightarrow>
      findById (posts (s\<lparr>posts := updateOne ((preSave ?m)\<lparr>p_updatedAt := t\<rparr>) (posts s)\<rparr>)) (p_id this)
        = Some ((preSave ?m)\<lparr>p_updatedAt := t\<rparr>)"
    by (simp add: findById_updateOne p_id_preSave)
  have "addReply s now this rid r = Inr (s\<lparr>posts := updateOne ((preSave ?m)\<lparr>p_updatedAt := t\<rparr>) (posts s)\<rparr>,
                (preSave ?m)\<lparr>p_updatedAt := t\<rparr>)"
    using t by (simp add: addReply_def)
  with r v' i f show ?thesis by blast
qed

section \<open>Lemmas on creating a post\<close>

lemma dropWhile_self: "xs = [] \<or> \<not> P (hd xs) \<Longrightarrow> dropWhile P xs = xs"
  by (cases xs) auto

lemma trim_idem: "trim (trim s) = trim s"
proof -
  define a where "a = dropWhile is_ws s"
  define b where "b = dropWhile is_ws (rev a)"
  have ts: "trim s = rev b" by (simp add: trim_def a_def b_def)
  have a_split: "rev a = takeWhile is_ws (rev a) @ b" by (simp add: b_def)
  then have a_eq: "a = rev b @ rev (takeWhile is_ws (rev a))"
    by (metis rev_append rev_rev_ident)
  have 1: "dropWhile is_ws (rev b) = rev b"
  proof (cases "rev b = []")
    case True
    then show ?thesis by simp
  next
    case False
    then have "hd (rev b) = hd a" using a_eq by (metis hd_append2)
    moreover have "a \<noteq> []" using a_eq False by auto
    then have "\<not> is_ws (hd a)" unfolding a_def by (rule hd_dropWhile)
    ultimately show ?thesis by (intro dropWhile_self) simp
  qed
  have 2: "dropWhile is_ws b = b" by (simp add: b_def)
  show ?thesis
    unfolding ts by (simp add: trim_def 1 2)
qed

lemma save_new:
  assumes "validatePost this = []" and "findById (posts s) (p_id this) = None"
  shows "save s now True this =
     Inr (s\<lparr>posts := posts s @ [(preSave this)\<lparr>p_createdAt := now, p_updatedAt := now\<rparr>]\<rparr>,
          (preSave this)\<lparr>p_createdAt := now, p_updatedAt := now\<rparr>)"
  using assms by (simp add: save_def Let_def postSave_def p_id_preSave)

lemma save_users: "save s now isNew this = Inr (s', d) \<Longrightarrow> users s' = users s"
  by (auto simp: save_def Let_def postSave_def split: list.splits if_splits)

lemma createPost_users: "users (fst (createPost s now newId userId postData)) = users s"
proof (cases "createPost_try s now newId userId postData")
  case (Inl e)
  then show ?thesis by (cases e) (simp_all add: createPost_def)
next
  case (Inr r)
  obtain s' resp where r: "r = (s', resp)" by (cases r)
  have "users s' = users s"
    using Inr unfolding r createPost_try_def
    by (auto split: idarg.splits option.splits if_splits sum.splits dest: save_users)
  with Inr r show ?thesis by (simp add: createPost_def)
qed

lemma PostType_nonempty: "t \<in> set PostType_values \<Longrightarrow> t \<noteq> []"
  by (auto simp: PostType_values_def)

lemma createPost_try_checked:
  assumes "users s uid = Some usr" and "u_isActive usr" and "c_postType d \<in> set PostType_values"
    and "c_content d = Some c"
  shows "createPost_try s now newId (Id uid) d =
     (if trim c = [] then Inr (s, failure ''Post content is required'' ''Missing post content'')
      else if length (trim c) > 280
        then Inr (s, failure ''Post content cannot exceed 280 characters'' ''Content too long'')
      else
        (case save s now True
                (newPost newId (trim c) (c_postType d)
                   (or_undefined (map_option trim (c_image d))) uid (or_undefined (c_city d))) of
           Inl e \<Rightarrow> Inl e
         | Inr (s', savedPost) \<Rightarrow>
             Inr (s', \<lparr>success = True, message = ''Post created successfully'',
                       error = None,
                       data = Some (OnePost (map_option (populateAuthor (users s'))
                                (findById (posts s') (p_id savedPost))))\<rparr>)))"
  using assms PostType_nonempty[OF assms(3)] by (simp add: createPost_try_def)

lemma validatePost_newPost:
  assumes "trim c \<noteq> []" and "length (trim c) \<le> 280" and "t \<in> set PostType_values"
    and "truthy city"
    and "case img of None \<Rightarrow> True | Some url \<Rightarrow> trim url = [] \<or> urlRegex_test (trim url)"
  shows "validatePost (newPost newId (trim c) t (or_undefined (map_option trim img)) uid
           (or_undefined city)) = []"
  using assms PostType_nonempty[OF assms(3)]
  by (cases img; cases city)
     (auto simp: validatePost_def validatePaths_def newPost_def trim_idem or_undefined_def
        truthy_def)


lemma preSave_newPost: "preSave (newPost newId x t img uid city) = newPost newId x t img uid city"
  by (simp add: preSave_def newPost_def)

section \<open>Lemmas on feeds\<close>

lemma set_mongoSort: "set (mongoSort spec ps) = set ps"
  by (simp add: mongoSort_def)

lemma feedPosts_getPostsFeed:
  assumes "buildFilter q = Inr f" and "findPosts rx f (posts s) = Inr found"
  shows "feedPosts (getPostsFeed rx s q) = mongoSort (sortSpec (q_sortBy q)) found"
  using assms
  by (simp add: getPostsFeed_def getPostsFeed_try_def feedPosts_def populateFeed_def o_def)

lemma getPostsFeed_cong:
  "buildFilter q1 = buildFilter q2 \<Longrightarrow> q_sortBy q1 = q_sortBy q2 \<Longrightarrow>
     getPostsFeed rx s q1 = getPostsFeed rx s q2"
  unfolding getPostsFeed_def getPostsFeed_try_def by (simp only:)

lemma getUserCityFeed_active:
  assumes "users s uid = Some usr" and "u_isActive usr"
  shows "getUserCityFeed rx s (Id uid) q =
     getPostsFeed rx s (q\<lparr>q_city := (if truthy (q_city q) then q_city q else u_city usr)\<rparr>)"
  using assms by (simp add: getUserCityFeed_def getUserCityFeed_try_def)


lemma buildFilter_plain:
  assumes "q_postType q = None" and "q_author q = NoId" and "q_search q = None"
  shows "buildFilter q =
     Inr \<lparr>f_isActive = True,
          f_city = (if truthy (map_option trim (q_city q)) then map_option trim (q_city q) else None),
          f_postType = None, f_author = None, f_content = None\<rparr>"
  using assms by (simp add: buildFilter_def truthy_def)

lemma feed_plain:
  assumes "q_postType q = None" and "q_author q = NoId" and "q_search q = None"
  shows "set (feedPosts (getPostsFeed rx s q)) =
     {p \<in> set (posts s). p_isActive p
        \<and> (truthy (map_option trim (q_city q)) \<longrightarrow> p_city p = map_option trim (q_city q))}"
proof -
  let ?f = "\<lparr>f_isActive = True,
          f_city = (if truthy (map_option trim (q_city q)) then map_option trim (q_city q) else None),
          f_postType = None, f_author = None, f_content = None\<rparr>"
  have b: "buildFilter q = Inr ?f" using assms by (rule buildFilter_plain)
  have f: "findPosts rx ?f (posts s) = Inr (filter (matches None ?f) (posts s))"
    by (simp add: findPosts_def)
  have m: "\<And>p. matches None ?f p = (p_isActive p
        \<and> (truthy (map_option trim (q_city q)) \<longrightarrow> p_city p = map_option trim (q_city q)))"
    by (cases "q_city q") (auto simp: matches_def truthy_def)
  show ?thesis
    unfolding feedPosts_getPostsFeed[OF b f] set_mongoSort by (auto simp: m)
qed

lemma buildFilter_no_city:
  assumes "\<not> truthy (map_option trim x)"
  shows "buildFilter (q\<lparr>q_city := x\<rparr>) = buildFilter (q\<lparr>q_city := None\<rparr>)"
  using assms by (simp add: buildFilter_def truthy_def split: idarg.splits)

section \<open>The like and dislike lists under toggles\<close>

text \<open>
  Claim C1. Take a post whose like and dislike lists have no duplicates and no
  identifier in common, as the lists of every newly created post do, and run any
  sequence of \<open>togglePostLike\<close> and \<open>togglePostDislike\<close> calls, by any users on any
  posts, each saving through the \<^verbatim>\<open>pre('save')\<close> hook. Afterwards the post is still in
  its place, no user \<open>U\<close> is in both of its lists, and each list holds \<open>U\<close> at most once.
\<close>

theorem toggles_keep_votes_exclusive:
  assumes "i < length (posts s)" and "likes_inv (posts s ! i)"
  shows "i < length (posts (runToggles s ops))
         \<and> p_id (posts (runToggles s ops) ! i) = p_id (posts s ! i)
         \<and> \<not> (U \<in> set (p_likes (posts (runToggles s ops) ! i))
               \<and> U \<in> set (p_dislikes (posts (runToggles s ops) ! i)))
         \<and> count_list (p_likes (posts (runToggles s ops) ! i)) U \<le> 1
         \<and> count_list (p_dislikes (posts (runToggles s ops) ! i)) U \<le> 1"
proof -
  let ?q = "posts (runToggles s ops) ! i"
  from runToggles_nth[OF assms(1), of ops] assms(2)
  have l: "length (posts (runToggles s ops)) = length (posts s)"
    and sb: "same_but_votes (posts s ! i) ?q" and inv: "likes_inv ?q"
    by simp_all
  from inv have d: "distinct (p_likes ?q)" "distinct (p_dislikes ?q)"
    and x: "\<forall>j \<in> set (p_likes ?q). j \<notin> set (p_dislikes ?q)"
    by (simp_all add: likes_inv_def list_all_iff)
  have c: "\<And>xs. distinct xs \<Longrightarrow> count_list xs U \<le> 1"
    by (rule count_list_distinct)
  from l assms(1) sb x c[OF d(1)] c[OF d(2)] show ?thesis
    by (auto simp: same_but_votes_def)
qed

theorem toggles_keep_votes_exclusive_witness:
  "0 < length (posts store1) \<and> likes_inv (posts store1 ! 0)
   \<and> p_likes (posts (runToggles store1 ops1) ! 0) = [3, 1]
   \<and> p_dislikes (posts (runToggles store1 ops1) ! 0) = [2]
   \<and> \<not> (2 \<in> set (p_likes (posts (runToggles store1 ops1) ! 0))
         \<and> 2 \<in> set (p_dislikes (posts (runToggles store1 ops1) ! 0)))
   \<and> count_list (p_likes (posts (runToggles store1 ops1) ! 0)) 2 \<le> 1
   \<and> count_list (p_dislikes (posts (runToggles store1 ops1) ! 0)) 2 \<le> 1"
proof -
  have h1: "0 < length (posts store1)" by code_simp
  have h2: "likes_inv (posts store1 ! 0)" by code_simp
  have e1: "p_likes (posts (runToggles store1 ops1) ! 0) = [3, 1]" by code_simp
  have e2: "p_dislikes (posts (runToggles store1 ops1) ! 0) = [2]" by code_simp
  from toggles_keep_votes_exclusive[OF h1 h2, of ops1 2] h1 h2 e1 e2 show ?thesis
    by blast
qed

section \<open>One toggle\<close>

text \<open>
  Claim C2. Let \<open>p\<close> be a stored, active post that passes the schema's validation and
  whose like and dislike lists have no identifier in common. One call of
  \<open>togglePostLike\<close> by \<open>u\<close> removes \<open>u\<close> from the dislike list and flips the membership
  of \<open>u\<close> in the like list, taking \<open>u\<close> out when it was there and appending it
  otherwise; no other user's membership in either list changes; and the message says
  "liked" when \<open>u\<close> is in the like list afterwards and "unliked" when not.
  \<open>togglePostDislike\<close> does the same with the two lists exchanged.
\<close>

theorem toggle_flips_membership:
  assumes "findById (posts s) pid = Some p" and "p_isActive p" and "validatePost p = []"
    and "list_all (\<lambda>i. i \<notin> set (p_dislikes p)) (p_likes p)"
  shows "(\<exists>p'. findById (posts (fst (togglePostLike s now (Id pid) (Id u)))) pid = Some p'
          \<and> p_dislikes p' = filter (\<lambda>i. i \<noteq> u) (p_dislikes p)
          \<and> p_likes p' = (if u \<in> set (p_likes p) then filter (\<lambda>i. i \<noteq> u) (p_likes p)
                           else p_likes p @ [u])
          \<and> (u \<in> set (p_likes p')) = (u \<notin> set (p_likes p))
          \<and> u \<notin> set (p_dislikes p')
          \<and> (\<forall>w. w \<noteq> u \<longrightarrow> (w \<in> set (p_likes p')) = (w \<in> set (p_likes p))
                           \<and> (w \<in> set (p_dislikes p')) = (w \<in> set (p_dislikes p)))
          \<and> success (snd (togglePostLike s now (Id pid) (Id u)))
          \<and> message (snd (togglePostLike s now (Id pid) (Id u)))
              = (if u \<in> set (p_likes p') then ''Post liked successfully''
                 else ''Post unliked successfully''))
       \<and> (\<exists>p'. findById (posts (fst (togglePostDislike s now (Id pid) (Id u)))) pid = Some p'
          \<and> p_likes p' = filter (\<lambda>i. i \<noteq> u) (p_likes p)
          \<and> p_dislikes p' = (if u \<in> set (p_dislikes p) then filter (\<lambda>i. i \<noteq> u) (p_dislikes p)
                              else p_dislikes p @ [u])
          \<and> (u \<in> set (p_dislikes p')) = (u \<notin> set (p_dislikes p))
          \<and> u \<notin> set (p_likes p')
          \<and> (\<forall>w. w \<noteq> u \<longrightarrow> (w \<in> set (p_likes p')) = (w \<in> set (p_likes p))
                           \<and> (w \<in> set (p_dislikes p')) = (w \<in> set (p_dislikes p)))
          \<and> success (snd (togglePostDislike s now (Id pid) (Id u)))
          \<and> message (snd (togglePostDislike s now (Id pid) (Id u)))
              = (if u \<in> set (p_dislikes p') then ''Post disliked successfully''
                 else ''Post undisliked successfully''))"
proof (rule conjI)
  from togglePostLike_flip[OF assms, of now u] obtain p' where
    1: "findById (posts (fst (togglePostLike s now (Id pid) (Id u)))) pid = Some p'"
    and 2: "p_likes p' = (if u \<in> set (p_likes p) then filter (\<lambda>i. i \<noteq> u) (p_likes p)
                      else p_likes p @ [u])"
    and 3: "p_dislikes p' = filter (\<lambda>i. i \<noteq> u) (p_dislikes p)"
    and 4: "snd (togglePostLike s now (Id pid) (Id u)) =
        \<lparr>success = True,
         message = (if u \<in> set (p_likes p) then ''Post unliked successfully''
                    else ''Post liked successfully''),
         error = None,
         data = Some (OnePost (Some (populateAuthor (users s) p')))\<rparr>"
    by blast
  have m: "(u \<in> set (p_likes p')) = (u \<notin> set (p_likes p))" by (simp add: 2)
  have o: "\<forall>w. w \<noteq> u \<longrightarrow> (w \<in> set (p_likes p')) = (w \<in> set (p_likes p))
                           \<and> (w \<in> set (p_dislikes p')) = (w \<in> set (p_dislikes p))"
    by (simp add: 2 3)
  have n: "u \<notin> set (p_dislikes p')" by (simp add: 3)
  have r: "success (snd (togglePostLike s now (Id pid) (Id u)))
          \<and> message (snd (togglePostLike s now (Id pid) (Id u)))
              = (if u \<in> set (p_likes p') then ''Post liked successfully''
                 else ''Post unliked successfully'')"
    unfolding 4 m by simp
  from 1 2 3 m n o r
  show "\<exists>p'. findById (posts (fst (togglePostLike s now (Id pid) (Id u)))) pid = Some p'
          \<and> p_dislikes p' = filter (\<lambda>i. i \<noteq> u) (p_dislikes p)
          \<and> p_likes p' = (if u \<in> set (p_likes p) then filter (\<lambda>i. i \<noteq> u) (p_likes p)
                           else p_likes p @ [u])
          \<and> (u \<in> set (p_likes p')) = (u \<notin> set (p_likes p))
          \<and> u \<notin> set (p_dislikes p')
          \<and> (\<forall>w. w \<noteq> u \<longrightarrow> (w \<in> set (p_likes p')) = (w \<in> set (p_likes p))
                           \<and> (w \<in> set (p_dislikes p')) = (w \<in> set (p_dislikes p)))
          \<and> success (snd (togglePostLike s now (Id pid) (Id u)))
          \<and> message (snd (togglePostLike s now (Id pid) (Id u)))
              = (if u \<in> set (p_likes p') then ''Post liked successfully''
                 else ''Post unliked successfully'')"
    by blast
next
  from togglePostDislike_flip[OF assms, of now u] obtain p' where
    1: "findById (posts (fst (togglePostDislike s now (Id pid) (Id u)))) pid = Some p'"
    and 2: "p_dislikes p' = (if u \<in> set (p_dislikes p) then filter (\<lambda>i. i \<noteq> u) (p_dislikes p)
                      else p_dislikes p @ [u])"
    and 3: "p_likes p' = filter (\<lambda>i. i \<noteq> u) (p_likes p)"
    and 4: "snd (togglePostDislike s now (Id pid) (Id u)) =
        \<lparr>success = True,
         message = (if u \<in> set (p_dislikes p) then ''Post undisliked successfully''
                    else ''Post disliked successfully''),
         error = None,
         data = Some (OnePost (Some (populateAuthor (users s) p')))\<rparr>"
    by blast
  have m: "(u \<in> set (p_dislikes p')) = (u \<notin> set (p_dislikes p))" by (simp add: 2)
  have o: "\<forall>w. w \<noteq> u \<longrightarrow> (w \<in> set (p_likes p')) = (w \<in> set (p_likes p))
                           \<and> (w \<in> set (p_dislikes p')) = (w \<in> set (p_dislikes p))"
    by (simp add: 2 3)
  have n: "u \<notin> set (p_likes p')" by (simp add: 3)
  have r: "success (snd (togglePostDislike s now (Id pid) (Id u)))
          \<and> message (snd (togglePostDislike s now (Id pid) (Id u)))
              = (if u \<in> set (p_dislikes p') then ''Post disliked successfully''
                 else ''Post undisliked successfully'')"
    unfolding 4 m by simp
  from 1 2 3 m n o r
  show "\<exists>p'. findById (posts (fst (togglePostDislike s now (Id pid) (Id u)))) pid = Some p'
          \<and> p_likes p' = filter (\<lambda>i. i \<noteq> u) (p_likes p)
          \<and> p_dislikes p' = (if u \<in> set (p_dislikes p) then filter (\<lambda>i. i \<noteq> u) (p_dislikes p)
                              else p_dislikes p @ [u])
          \<and> (u \<in> set (p_dislikes p')) = (u \<notin> set (p_dislikes p))
          \<and> u \<notin> set (p_likes p')
          \<and> (\<forall>w. w \<noteq> u \<longrightarrow> (w \<in> set (p_likes p')) = (w \<in> set (p_likes p))
                           \<and> (w \<in> set (p_dislikes p')) = (w \<in> set (p_dislikes p)))
          \<and> success (snd (togglePostDislike s now (Id pid) (Id u)))
          \<and> message (snd (togglePostDislike s now (Id pid) (Id u)))
              = (if u \<in> set (p_dislikes p') then ''Post disliked successfully''
                 else ''Post undisliked successfully'')"
    by blast
qed

theorem toggle_flips_membership_witness:
  "findById (posts store2) 10 = Some (posts store2 ! 0)
   \<and> p_isActive (posts store2 ! 0) \<and> validatePost (posts store2 ! 0) = []
   \<and> p_likes (posts store2 ! 0) = [2] \<and> p_dislikes (posts store2 ! 0) = []
   \<and> (\<exists>p'. findById (posts (fst (togglePostDislike store2 102 (Id 10) (Id 2)))) 10 = Some p'
          \<and> p_likes p' = [] \<and> p_dislikes p' = [2])
   \<and> message (snd (togglePostDislike store2 102 (Id 10) (Id 2))) = ''Post disliked successfully''
   \<and> (\<exists>p'. findById (posts (fst (togglePostLike store2 102 (Id 10) (Id 2)))) 10 = Some p'
          \<and> p_likes p' = [] \<and> p_dislikes p' = [])
   \<and> message (snd (togglePostLike store2 102 (Id 10) (Id 2))) = ''Post unliked successfully''"
proof -
  have h1: "findById (posts store2) 10 = Some (posts store2 ! 0)" by code_simp
  have h2: "p_isActive (posts store2 ! 0)" by code_simp
  have h3: "validatePost (posts store2 ! 0) = []" by code_simp
  have l: "p_likes (posts store2 ! 0) = [2]" by code_simp
  have d: "p_dislikes (posts store2 ! 0) = []" by code_simp
  have h4: "list_all (\<lambda>i. i \<notin> set (p_dislikes (posts store2 ! 0))) (p_likes (posts store2 ! 0))"
    by (simp add: l d)
  from toggle_flips_membership[OF h1 h2 h3 h4, of 102 2] h1 h2 h3 l d show ?thesis
    by (auto simp: l d)
qed

section \<open>Repeated toggles\<close>

text \<open>
  Claim C3, as amended. Let \<open>p\<close> be a stored, active, valid post whose lists have no
  identifier in common, and let \<open>togglePostLike\<close> be called \<open>n\<close> times for the same
  user \<open>u\<close> with nothing in between. After an odd number of calls the membership of \<open>u\<close>
  in the like list is the opposite of what it was before the first call, and \<open>u\<close> is not
  in the dislike list. After an even number of calls the membership of \<open>u\<close> in the like
  list is what it was before the first call; \<open>u\<close> is in the dislike list only when no
  call was made and \<open>u\<close> was there before.
\<close>

theorem toggle_like_parity:
  assumes "findById (posts s) pid = Some p" and "p_isActive p" and "validatePost p = []"
    and "list_all (\<lambda>i. i \<notin> set (p_dislikes p)) (p_likes p)"
  shows "\<exists>p'. findById (posts (toggleLikeTimes s nows (Id pid) (Id u))) pid = Some p'
     \<and> (odd (length nows) \<longrightarrow>
           (u \<in> set (p_likes p')) = (u \<notin> set (p_likes p)) \<and> u \<notin> set (p_dislikes p'))
     \<and> (even (length nows) \<longrightarrow>
           (u \<in> set (p_likes p')) = (u \<in> set (p_likes p))
           \<and> (u \<in> set (p_dislikes p')) = (u \<in> set (p_dislikes p) \<and> nows = []))"
  using assms
proof (induction nows arbitrary: s p)
  case Nil
  then show ?case by (simp add: toggleLikeTimes_def)
next
  case (Cons now nows)
  from togglePostLike_flip[OF Cons.prems, of now u] obtain p1 where
    f1: "findById (posts (fst (togglePostLike s now (Id pid) (Id u)))) pid = Some p1"
    and sb: "same_but_votes p p1"
    and L: "p_likes p1 = (if u \<in> set (p_likes p) then filter (\<lambda>i. i \<noteq> u) (p_likes p)
                      else p_likes p @ [u])"
    and D: "p_dislikes p1 = filter (\<lambda>i. i \<noteq> u) (p_dislikes p)"
    by blast
  have a1: "p_isActive p1" using sb Cons.prems(2) by (simp add: same_but_votes_active)
  have v1: "validatePost p1 = []" using sb Cons.prems(3) by (simp add: validatePost_same)
  have d1: "list_all (\<lambda>i. i \<notin> set (p_dislikes p1)) (p_likes p1)"
    using Cons.prems(4) by (auto simp: L D list_all_iff)
  have m1: "(u \<in> set (p_likes p1)) = (u \<notin> set (p_likes p))" by (simp add: L)
  have n1: "u \<notin> set (p_dislikes p1)" by (simp add: D)
  from Cons.IH[OF f1 a1 v1 d1] obtain p' where
    f': "findById (posts (toggleLikeTimes (fst (togglePostLike s now (Id pid) (Id u))) nows
            (Id pid) (Id u))) pid = Some p'"
    and o: "odd (length nows) \<longrightarrow>
           (u \<in> set (p_likes p')) = (u \<notin> set (p_likes p1)) \<and> u \<notin> set (p_dislikes p')"
    and e: "even (length nows) \<longrightarrow>
           (u \<in> set (p_likes p')) = (u \<in> set (p_likes p1))
           \<and> (u \<in> set (p_dislikes p')) = (u \<in> set (p_dislikes p1) \<and> nows = [])"
    by blast
  from f' o e m1 n1 show ?case
    by (auto simp: toggleLikeTimes_Cons)
qed

theorem toggle_like_parity_witness:
  "findById (posts store3) 10 = Some (posts store3 ! 0)
   \<and> p_likes (posts store3 ! 0) = [] \<and> p_dislikes (posts store3 ! 0) = [2]
   \<and> (\<exists>p'. findById (posts (toggleLikeTimes store3 [102, 103, 104] (Id 10) (Id 2))) 10 = Some p'
          \<and> 2 \<in> set (p_likes p') \<and> 2 \<notin> set (p_dislikes p'))"
proof -
  have h1: "findById (posts store3) 10 = Some (posts store3 ! 0)" by code_simp
  have h2: "p_isActive (posts store3 ! 0)" by code_simp
  have h3: "validatePost (posts store3 ! 0) = []" by code_simp
  have l: "p_likes (posts store3 ! 0) = []" by code_simp
  have d: "p_dislikes (posts store3 ! 0) = [2]" by code_simp
  have h4: "list_all (\<lambda>i. i \<notin> set (p_dislikes (posts store3 ! 0))) (p_likes (posts store3 ! 0))"
    by (simp add: l d)
  from toggle_like_parity[OF h1 h2 h3 h4, of "[102, 103, 104]" 2] h1 l d show ?thesis
    by (auto simp: l d)
qed

text \<open>
  The claim as it stands fails twice. A user who likes the post is, after one call, not
  in the like list. A user who dislikes the post is, after two calls, not in the dislike
  list, where that user was before the first call.
\<close>

theorem toggle_like_parity_counterexample:
  "map_option p_likes (findById (posts store2) 10) = Some [2]
   \<and> map_option p_likes
        (findById (posts (toggleLikeTimes store2 [102] (Id 10) (Id 2))) 10) = Some []
   \<and> map_option p_dislikes (findById (posts store3) 10) = Some [2]
   \<and> map_option p_dislikes
        (findById (posts (toggleLikeTimes store3 [102, 103] (Id 10) (Id 2))) 10) = Some []"
  by code_simp

section \<open>The feed sorted by likes\<close>

text \<open>
  Claim C4 says that the feed with \<^verbatim>\<open>sortBy=mostLiked\<close> comes in non-increasing order of
  the number of likes. The sort specification of that option is
  \<^verbatim>\<open>{ likes: -1, createdAt: -1 }\<close>, whose first key is the like list itself, not its
  length. In the store of the example the first post has one like, by the third user,
  and the second post has two, by the first two users: the feed puts the post with one
  like before the post with two.
\<close>

theorem mostLiked_feed_not_by_count:
  "map (\<lambda>p. (p_id p, p_likes p)) (posts storeF) = [(10, [3]), (11, [1, 2])]
   \<and> map (\<lambda>p. (p_id p, length (p_likes p)))
         (feedPosts (getPostsFeed (\<lambda>_. None) storeF mostLiked)) = [(10, 1), (11, 2)]"
  by code_simp

section \<open>The author's count of posts\<close>

text \<open>
  Claim C5 says that a successful \<open>createPost\<close> adds one to the author's
  \<^verbatim>\<open>postsCount\<close>. The \<^verbatim>\<open>post('save')\<close> hook adds one only when the document's \<^verbatim>\<open>isNew\<close>
  flag is set, and by the time the hook runs the flag is cleared: the first user
  creates a post and the count stays at 0.
\<close>

theorem createPost_leaves_postsCount:
  "success (snd (createPost store0 100 10 (Id 1) taco))
   \<and> map_option p_author (findById (posts (fst (createPost store0 100 10 (Id 1) taco))) 10)
       = Some 1
   \<and> map_option u_postsCount (users store0 1) = Some 0
   \<and> map_option u_postsCount (users (fst (createPost store0 100 10 (Id 1) taco)) 1) = Some 0"
  by code_simp

section \<open>The length of the content\<close>

text \<open>
  Claim C6, as amended. For an active author and a valid post type: content that trims
  to more than 280 characters is refused with the message that the content cannot
  exceed 280 characters, and content that trims to nothing is refused as missing,
  the store staying as it was in both cases; content that trims to between 1 and 280
  characters is accepted, and the post stored with the trimmed content, provided that
  the request has a non-empty city, that its image is absent, blank or a well-formed
  image URL, and that the generated identifier is not taken; and whenever the call
  succeeds the content trims to between 1 and 280 characters.
\<close>

theorem createPost_content_length:
  assumes "users s uid = Some usr" and "u_isActive usr"
    and "c_postType d \<in> set PostType_values" and "c_content d = Some c"
  shows "(280 < length (trim c) \<longrightarrow>
            createPost s now newId (Id uid) d =
              (s, failure ''Post content cannot exceed 280 characters'' ''Content too long''))
       \<and> (trim c = [] \<longrightarrow>
            createPost s now newId (Id uid) d =
              (s, failure ''Post content is required'' ''Missing post content''))
       \<and> (1 \<le> length (trim c) \<and> length (trim c) \<le> 280 \<and> truthy (c_city d)
          \<and> (case c_image d of None \<Rightarrow> True
              | Some url \<Rightarrow> trim url = [] \<or> urlRegex_test (trim url))
          \<and> findById (posts s) newId = None \<longrightarrow>
            success (snd (createPost s now newId (Id uid) d))
          \<and> posts (fst (createPost s now newId (Id uid) d)) =
              posts s @ [(newPost newId (trim c) (c_postType d)
                            (or_undefined (map_option trim (c_image d))) uid (c_city d))
                         \<lparr>p_createdAt := now, p_updatedAt := now\<rparr>])
       \<and> (success (snd (createPost s now newId (Id uid) d)) \<longrightarrow>
            1 \<le> length (trim c) \<and> length (trim c) \<le> 280)"
proof (intro conjI impI)
  assume "280 < length (trim c)"
  then have "trim c \<noteq> []" by auto
  with \<open>280 < length (trim c)\<close>
  show "createPost s now newId (Id uid) d =
              (s, failure ''Post content cannot exceed 280 characters'' ''Content too long'')"
    by (simp add: createPost_def createPost_try_checked[OF assms])
next
  assume "trim c = []"
  then show "createPost s now newId (Id uid) d =
              (s, failure ''Post content is required'' ''Missing post content'')"
    by (simp add: createPost_def createPost_try_checked[OF assms])
next
  assume ok: "1 \<le> length (trim c) \<and> length (trim c) \<le> 280 \<and> truthy (c_city d)
          \<and> (case c_image d of None \<Rightarrow> True
              | Some url \<Rightarrow> trim url = [] \<or> urlRegex_test (trim url))
          \<and> findById (posts s) newId = None"
  let ?n = "newPost newId (trim c) (c_postType d)
              (or_undefined (map_option trim (c_image d))) uid (or_undefined (c_city d))"
  from ok have ne: "trim c \<noteq> []" by auto
  from ok have city: "or_undefined (c_city d) = c_city d" by (simp add: or_undefined_def)
  have v: "validatePost ?n = []"
    using ne ok assms(3) by (intro validatePost_newPost) auto
  have i: "p_id ?n = newId" by (simp add: newPost_def)
  have sv: "save s now True ?n =
     Inr (s\<lparr>posts := posts s @ [?n\<lparr>p_createdAt := now, p_updatedAt := now\<rparr>]\<rparr>,
          ?n\<lparr>p_createdAt := now, p_updatedAt := now\<rparr>)"
    using save_new[OF v, of s now] ok by (simp add: i preSave_newPost)
  have "createPost_try s now newId (Id uid) d =
      Inr (s\<lparr>posts := posts s @ [?n\<lparr>p_createdAt := now, p_updatedAt := now\<rparr>]\<rparr>,
           \<lparr>success = True, message = ''Post created successfully'', error = None,
            data = Some (OnePost (map_option (populateAuthor (users s))
                     (findById (posts s @ [?n\<lparr>p_createdAt := now, p_updatedAt := now\<rparr>])
                         newId)))\<rparr>)"
    using ne ok by (simp add: createPost_try_checked[OF assms] sv i)
  then show "success (snd (createPost s now newId (Id uid) d))"
    and "posts (fst (createPost s now newId (Id uid) d)) =
              posts s @ [(newPost newId (trim c) (c_postType d)
                            (or_undefined (map_option trim (c_image d))) uid (c_city d))
                         \<lparr>p_createdAt := now, p_updatedAt := now\<rparr>]"
    by (simp_all add: createPost_def city)
next
  assume s: "success (snd (createPost s now newId (Id uid) d))"
  show "1 \<le> length (trim c)"
  proof (rule ccontr)
    assume "\<not> 1 \<le> length (trim c)"
    then have "trim c = []" by (cases "trim c") auto
    then have "createPost s now newId (Id uid) d =
              (s, failure ''Post content is required'' ''Missing post content'')"
      by (simp add: createPost_def createPost_try_checked[OF assms])
    with s show False by (simp add: failure_def)
  qed
  show "length (trim c) \<le> 280"
  proof (rule ccontr)
    assume n: "\<not> length (trim c) \<le> 280"
    then have "trim c \<noteq> []" by auto
    with n have "createPost s now newId (Id uid) d =
              (s, failure ''Post content cannot exceed 280 characters'' ''Content too long'')"
      by (simp add: createPost_def createPost_try_checked[OF assms])
    with s show False by (simp add: failure_def)
  qed
qed

theorem createPost_content_length_witness:
  "users store0 1 = Some user_A \<and> u_isActive user_A
   \<and> length (trim (replicate 280 CHR ''a'')) = 280
   \<and> success (snd (createPost store0 100 10 (Id 1) ok280))
   \<and> map p_content (posts (fst (createPost store0 100 10 (Id 1) ok280)))
       = [replicate 280 CHR ''a'']
   \<and> length (trim (replicate 281 CHR ''a'')) = 281
   \<and> createPost store0 100 10 (Id 1) long281
       = (store0, failure ''Post content cannot exceed 280 characters'' ''Content too long'')"
proof -
  have u: "users store0 1 = Some user_A" by (simp add: store0_def)
  have a: "u_isActive user_A" by (simp add: user_A_def)
  have t: "c_postType ok280 \<in> set PostType_values" "c_postType long281 \<in> set PostType_values"
    by code_simp+
  have c: "c_content ok280 = Some (replicate 280 CHR ''a'')"
    "c_content long281 = Some (replicate 281 CHR ''a'')"
    by (simp_all add: ok280_def long280_def long281_def)
  have l: "length (trim (replicate 280 CHR ''a'')) = 280"
    "length (trim (replicate 281 CHR ''a'')) = 281"
    by code_simp+
  have tr: "trim (replicate 280 CHR ''a'') = replicate 280 CHR ''a''" by code_simp
  have o: "truthy (c_city ok280)" "c_image ok280 = None" "findById (posts store0) 10 = None"
    by code_simp+
  from createPost_content_length[OF u a t(1) c(1), of 100 10] l o
  have 1: "success (snd (createPost store0 100 10 (Id 1) ok280))"
    and 2: "map p_content (posts (fst (createPost store0 100 10 (Id 1) ok280)))
       = [replicate 280 CHR ''a'']"
    by (simp_all add: store0_def newPost_def tr trim_idem)
  from createPost_content_length[OF u a t(2) c(2), of 100 10] l
  have 3: "createPost store0 100 10 (Id 1) long281
       = (store0, failure ''Post content cannot exceed 280 characters'' ''Content too long'')"
    by simp
  from u a l 1 2 3 show ?thesis by blast
qed


text \<open>
  The claim as it stands fails for a request without a city: the schema requires the
  city, so content of exactly 280 characters from an active author with a valid post
  type is refused and no post is stored.
\<close>

theorem createPost_content_length_counterexample:
  "u_isActive user_A \<and> users store0 1 = Some user_A
   \<and> c_postType long280 \<in> set PostType_values
   \<and> map_option (\<lambda>c. length (trim c)) (c_content long280) = Some 280
   \<and> \<not> success (snd (createPost store0 100 10 (Id 1) long280))
   \<and> message (snd (createPost store0 100 10 (Id 1) long280)) = ''Validation failed''
   \<and> posts (fst (createPost store0 100 10 (Id 1) long280)) = []"
  by code_simp

section \<open>The home feed\<close>

text \<open>
  Claim C7, as amended. For an active user, \<open>getUserCityFeed\<close> is \<open>getPostsFeed\<close> on
  the same query with the city replaced, when the caller gave none, by the user's stored
  city. The feed query compares the trimmed city with the city a post was stored with:
  with no other filter and a stored city that is not blank, the posts returned are
  exactly the active posts whose city is the user's stored city with the white space
  at its ends removed. For an identifier that names no user the result is the
  "User does not exist" failure, which the controller answers with 404, and for a
  deactivated user the "Account status inactive" failure, answered with 403; neither
  depends on the posts.
\<close>

theorem home_feed_defaults_city:
  "(\<forall>usr. users s uid = Some usr \<and> u_isActive usr \<longrightarrow>
       getUserCityFeed rx s (Id uid) q =
         getPostsFeed rx s (q\<lparr>q_city := (if truthy (q_city q) then q_city q else u_city usr)\<rparr>)
     \<and> (\<forall>c. \<not> truthy (q_city q) \<and> q_postType q = None \<and> q_author q = NoId
             \<and> q_search q = None \<and> u_city usr = Some c \<and> trim c \<noteq> [] \<longrightarrow>
           set (feedPosts (getUserCityFeed rx s (Id uid) q)) =
             {p \<in> set (posts s). p_isActive p \<and> p_city p = Some (trim c)}))
   \<and> (users s uid = None \<longrightarrow>
         getUserCityFeed rx s (Id uid) q = failure ''User not found'' ''User does not exist''
       \<and> cityFeedStatus (getUserCityFeed rx s (Id uid) q) = 404)
   \<and> (\<forall>usr. users s uid = Some usr \<and> \<not> u_isActive usr \<longrightarrow>
         getUserCityFeed rx s (Id uid) q =
           failure ''Account is deactivated'' ''Account status inactive''
       \<and> cityFeedStatus (getUserCityFeed rx s (Id uid) q) = 403)"
proof (intro conjI allI impI)
  fix usr assume a: "users s uid = Some usr \<and> u_isActive usr"
  then show e: "getUserCityFeed rx s (Id uid) q =
         getPostsFeed rx s (q\<lparr>q_city := (if truthy (q_city q) then q_city q else u_city usr)\<rparr>)"
    by (simp add: getUserCityFeed_active)
  fix c
  assume h: "\<not> truthy (q_city q) \<and> q_postType q = None \<and> q_author q = NoId
             \<and> q_search q = None \<and> u_city usr = Some c \<and> trim c \<noteq> []"
  let ?q = "q\<lparr>q_city := Some c\<rparr>"
  from h have "getUserCityFeed rx s (Id uid) q = getPostsFeed rx s ?q" by (simp add: e)
  moreover have "set (feedPosts (getPostsFeed rx s ?q)) =
     {p \<in> set (posts s). p_isActive p
        \<and> (truthy (map_option trim (q_city ?q)) \<longrightarrow> p_city p = map_option trim (q_city ?q))}"
    using h by (intro feed_plain) simp_all
  ultimately show "set (feedPosts (getUserCityFeed rx s (Id uid) q)) =
             {p \<in> set (posts s). p_isActive p \<and> p_city p = Some (trim c)}"
    using h by (simp add: truthy_def)
next
  assume "users s uid = None"
  then show "getUserCityFeed rx s (Id uid) q = failure ''User not found'' ''User does not exist''"
    and "cityFeedStatus (getUserCityFeed rx s (Id uid) q) = 404"
    by (simp_all add: getUserCityFeed_def getUserCityFeed_try_def cityFeedStatus_def failure_def)
next
  fix usr assume "users s uid = Some usr \<and> \<not> u_isActive usr"
  then show "getUserCityFeed rx s (Id uid) q =
           failure ''Account is deactivated'' ''Account status inactive''"
    and "cityFeedStatus (getUserCityFeed rx s (Id uid) q) = 403"
    by (simp_all add: getUserCityFeed_def getUserCityFeed_try_def cityFeedStatus_def failure_def)
qed

theorem home_feed_defaults_city_witness:
  "map p_id (feedPosts (getUserCityFeed (\<lambda>_. None) store1 (Id 2) noFilter)) = [10]
   \<and> set (feedPosts (getUserCityFeed (\<lambda>_. None) store1 (Id 2) noFilter)) =
        {p \<in> set (posts store1). p_isActive p \<and> p_city p = Some ''Austin''}
   \<and> set (feedPosts (getUserCityFeed (\<lambda>_. None) store1 (Id 3) noFilter)) =
        {p \<in> set (posts store1). p_isActive p \<and> p_city p = Some ''Denver''}
   \<and> feedPosts (getUserCityFeed (\<lambda>_. None) store1 (Id 3) noFilter) = []
   \<and> cityFeedStatus (getUserCityFeed (\<lambda>_. None) store1 (Id 9) noFilter) = 404
   \<and> cityFeedStatus (getUserCityFeed (\<lambda>_. None) store1 (Id 5) noFilter) = 403"
proof -
  have us: "users store1 = users store0" unfolding store1_def by (rule createPost_users)
  have u2: "users store1 2 = Some user_B \<and> u_isActive user_B"
    by (simp add: us store0_def user_B_def user_A_def)
  have u3: "users store1 3 = Some user_C \<and> u_isActive user_C"
    by (simp add: us store0_def user_C_def user_A_def)
  have u9: "users store1 9 = None" by (simp add: us store0_def)
  have u5: "users store1 5 = Some user_E \<and> \<not> u_isActive user_E"
    by (simp add: us store0_def user_E_def user_A_def)
  have q: "\<not> truthy (q_city noFilter) \<and> q_postType noFilter = None \<and> q_author noFilter = NoId
           \<and> q_search noFilter = None"
    by (simp add: noFilter_def truthy_def)
  have c2: "u_city user_B = Some ''Austin'' \<and> trim ''Austin'' \<noteq> [] \<and> trim ''Austin'' = ''Austin''"
    by code_simp
  have c3: "u_city user_C = Some ''Denver'' \<and> trim ''Denver'' \<noteq> [] \<and> trim ''Denver'' = ''Denver''"
    by code_simp
  have e2: "map p_id (feedPosts (getUserCityFeed (\<lambda>_. None) store1 (Id 2) noFilter)) = [10]"
    by code_simp
  have e3: "feedPosts (getUserCityFeed (\<lambda>_. None) store1 (Id 3) noFilter) = []"
    by code_simp
  note T2 = home_feed_defaults_city[of store1 2 "\<lambda>_. None" noFilter]
  have p2: "\<not> truthy (q_city noFilter) \<and> q_postType noFilter = None \<and> q_author noFilter = NoId
             \<and> q_search noFilter = None \<and> u_city user_B = Some ''Austin''
             \<and> trim ''Austin'' \<noteq> []"
    using q c2 by simp
  have a2: "set (feedPosts (getUserCityFeed (\<lambda>_. None) store1 (Id 2) noFilter)) =
        {p \<in> set (posts store1). p_isActive p \<and> p_city p = Some ''Austin''}"
    using T2[THEN conjunct1, THEN spec, of user_B, THEN mp, OF u2, THEN conjunct2,
             THEN spec, of "''Austin''", THEN mp, OF p2]
    by (simp only: c2)
  note T3 = home_feed_defaults_city[of store1 3 "\<lambda>_. None" noFilter]
  have p3: "\<not> truthy (q_city noFilter) \<and> q_postType noFilter = None \<and> q_author noFilter = NoId
             \<and> q_search noFilter = None \<and> u_city user_C = Some ''Denver''
             \<and> trim ''Denver'' \<noteq> []"
    using q c3 by simp
  have a3: "set (feedPosts (getUserCityFeed (\<lambda>_. None) store1 (Id 3) noFilter)) =
        {p \<in> set (posts store1). p_isActive p \<and> p_city p = Some ''Denver''}"
    using T3[THEN conjunct1, THEN spec, of user_C, THEN mp, OF u3, THEN conjunct2,
             THEN spec, of "''Denver''", THEN mp, OF p3]
    by (simp only: c3)
  have a9: "cityFeedStatus (getUserCityFeed (\<lambda>_. None) store1 (Id 9) noFilter) = 404"
    using home_feed_defaults_city[of store1 9 "\<lambda>_. None" noFilter, THEN conjunct2,
            THEN conjunct1, THEN mp, OF u9]
    by (rule conjunct2)
  have a5: "cityFeedStatus (getUserCityFeed (\<lambda>_. None) store1 (Id 5) noFilter) = 403"
    using home_feed_defaults_city[of store1 5 "\<lambda>_. None" noFilter, THEN conjunct2,
            THEN conjunct2, THEN spec, of user_E, THEN mp, OF u5]
    by (rule conjunct2)
  from e2 a2 a3 e3 a9 a5 show ?thesis by (intro conjI)
qed

text \<open>
  The claim as it stands fails for a city stored with white space at an end. The user's
  city and the post's city are stored as they were sent, and only the filter is
  trimmed: a user whose stored city is \<open>'' Austin''\<close> creates a post in \<open>'' Austin''\<close>,
  and that user's home feed, which succeeds, does not hold the post.
\<close>

theorem home_feed_defaults_city_counterexample:
  "map_option (\<lambda>u. (u_city u, u_isActive u)) (users storeP 6) = Some (Some '' Austin'', True)
   \<and> map (\<lambda>p. (p_id p, p_author p, p_city p, p_isActive p)) (posts storeP)
       = [(10, 6, Some '' Austin'', True)]
   \<and> success (getUserCityFeed (\<lambda>_. None) storeP (Id 6) noFilter)
   \<and> feedPosts (getUserCityFeed (\<lambda>_. None) storeP (Id 6) noFilter) = []"
  by code_simp


section \<open>Replies\<close>

text \<open>
  Claim C8. Let a stored post pass validation, let the content of a reply trim to
  between 1 and 280 characters, and let the identifier generated for the reply be
  carried by no reply of the post. Then \<open>addReply\<close> succeeds and appends the reply, and
  \<open>removeReply\<close> with that identifier, called on the result, succeeds and leaves the
  sequence of replies that the post had before, the same list and so the same
  multiset. And \<open>removeReply\<close> with an identifier that no reply of the post carries
  succeeds and leaves the sequence of replies as it was.
\<close>

theorem addReply_then_removeReply:
  assumes "findById (posts s) (p_id this) = Some this" and "validatePost this = []"
    and "trim (fst r) \<noteq> []" and "length (trim (fst r)) \<le> 280"
    and "\<forall>q \<in> set (p_replies this). r_id q \<noteq> Some rid"
  shows "(\<exists>s1 d1 s2 d2.
            addReply s now this rid r = Inr (s1, d1)
          \<and> p_replies d1 = p_replies this
               @ [\<lparr>r_id = Some rid, r_content = trim (fst r), r_author = snd r\<rparr>]
          \<and> removeReply s1 now' d1 rid = Inr (s2, d2)
          \<and> findById (posts s2) (p_id this) = Some d2
          \<and> p_replies d2 = p_replies this
          \<and> mset (p_replies d2) = mset (p_replies this))
       \<and> (\<forall>x. (\<forall>q \<in> set (p_replies this). r_id q \<noteq> Some x) \<longrightarrow>
            (\<exists>s3 d3. removeReply s now this x = Inr (s3, d3)
               \<and> findById (posts s3) (p_id this) = Some d3
               \<and> p_replies d3 = p_replies this))"
proof (rule conjI)
  from addReply_replies[OF assms(2,3,4), of s now rid] assms(1) obtain s1 d1 where
    a: "addReply s now this rid r = Inr (s1, d1)"
    and r1: "p_replies d1 = p_replies this
            @ [\<lparr>r_id = Some rid, r_content = trim (fst r), r_author = snd r\<rparr>]"
    and v1: "validatePost d1 = []" and i1: "p_id d1 = p_id this"
    and f1: "findById (posts s1) (p_id this) = Some d1"
    by auto
  from removeReply_replies[OF v1, of s1 now' rid] f1 i1 obtain s2 d2 where
    b: "removeReply s1 now' d1 rid = Inr (s2, d2)"
    and r2: "p_replies d2 = filter (\<lambda>q. r_id q \<noteq> Some rid) (p_replies d1)"
    and f2: "findById (posts s2) (p_id this) = Some d2"
    by auto
  have "filter (\<lambda>q. r_id q \<noteq> Some rid) (p_replies d1) = p_replies this"
    using assms(5) by (simp add: r1 filter_id_conv)
  with r2 have r3: "p_replies d2 = p_replies this" by simp
  from a r1 b f2 r3
  show "\<exists>s1 d1 s2 d2.
            addReply s now this rid r = Inr (s1, d1)
          \<and> p_replies d1 = p_replies this
               @ [\<lparr>r_id = Some rid, r_content = trim (fst r), r_author = snd r\<rparr>]
          \<and> removeReply s1 now' d1 rid = Inr (s2, d2)
          \<and> findById (posts s2) (p_id this) = Some d2
          \<and> p_replies d2 = p_replies this
          \<and> mset (p_replies d2) = mset (p_replies this)"
    by auto
next
  show "\<forall>x. (\<forall>q \<in> set (p_replies this). r_id q \<noteq> Some x) \<longrightarrow>
            (\<exists>s3 d3. removeReply s now this x = Inr (s3, d3)
               \<and> findById (posts s3) (p_id this) = Some d3
               \<and> p_replies d3 = p_replies this)"
  proof (intro allI impI)
    fix x assume n: "\<forall>q \<in> set (p_replies this). r_id q \<noteq> Some x"
    from removeReply_replies[OF assms(2), of s now x] assms(1) obtain s3 d3 where
      b: "removeReply s now this x = Inr (s3, d3)"
      and r2: "p_replies d3 = filter (\<lambda>q. r_id q \<noteq> Some x) (p_replies this)"
      and f2: "findById (posts s3) (p_id this) = Some d3"
      by auto
    have "filter (\<lambda>q. r_id q \<noteq> Some x) (p_replies this) = p_replies this"
      using n by (simp add: filter_id_conv)
    with b r2 f2 show "\<exists>s3 d3. removeReply s now this x = Inr (s3, d3)
               \<and> findById (posts s3) (p_id this) = Some d3
               \<and> p_replies d3 = p_replies this"
      by auto
  qed
qed

theorem addReply_then_removeReply_witness:
  "findById (posts storeR) 10 = Some (posts storeR ! 0)
   \<and> p_replies (posts storeR ! 0) = [reply70]
   \<and> (\<exists>s1 d1 s2 d2.
          addReply storeR 105 (posts storeR ! 0) 71 ('' Love it '', 2) = Inr (s1, d1)
        \<and> p_replies d1 = [reply70, \<lparr>r_id = Some 71, r_content = ''Love it'', r_author = 2\<rparr>]
        \<and> removeReply s1 106 d1 71 = Inr (s2, d2)
        \<and> p_replies d2 = [reply70])
   \<and> (\<exists>s3 d3. removeReply storeR 105 (posts storeR ! 0) 99 = Inr (s3, d3)
        \<and> p_replies d3 = [reply70])"
proof -
  have i: "p_id (posts storeR ! 0) = 10" by code_simp
  have h1: "findById (posts storeR) (p_id (posts storeR ! 0)) = Some (posts storeR ! 0)"
    by code_simp
  have h2: "validatePost (posts storeR ! 0) = []" by code_simp
  have t: "trim '' Love it '' = ''Love it''" by code_simp
  have h3: "trim (fst ('' Love it '', 2::nat)) \<noteq> []" by (simp add: t)
  have h4: "length (trim (fst ('' Love it '', 2::nat))) \<le> 280" by (simp add: t)
  have r: "p_replies (posts storeR ! 0) = [reply70]" by code_simp
  have h5: "\<forall>q \<in> set (p_replies (posts storeR ! 0)). r_id q \<noteq> Some 71"
    by (simp add: r reply70_def)
  have n: "\<forall>q \<in> set (p_replies (posts storeR ! 0)). r_id q \<noteq> Some 99"
    by (simp add: r reply70_def)
  note T = addReply_then_removeReply[OF h1 h2 h3 h4 h5, of 105 106]
  from T obtain s1 d1 s2 d2 where
    "addReply storeR 105 (posts storeR ! 0) 71 ('' Love it '', 2) = Inr (s1, d1)"
    "p_replies d1 = p_replies (posts storeR ! 0)
        @ [\<lparr>r_id = Some 71, r_content = trim (fst ('' Love it '', 2::nat)),
            r_author = snd ('' Love it '', 2::nat)\<rparr>]"
    "removeReply s1 106 d1 71 = Inr (s2, d2)"
    "p_replies d2 = p_replies (posts storeR ! 0)"
    by blast
  then have 1: "\<exists>s1 d1 s2 d2.
          addReply storeR 105 (posts storeR ! 0) 71 ('' Love it '', 2) = Inr (s1, d1)
        \<and> p_replies d1 = [reply70, \<lparr>r_id = Some 71, r_content = ''Love it'', r_author = 2\<rparr>]
        \<and> removeReply s1 106 d1 71 = Inr (s2, d2)
        \<and> p_replies d2 = [reply70]"
    by (simp add: r t)
  from T n obtain s3 d3 where
    "removeReply storeR 105 (posts storeR ! 0) 99 = Inr (s3, d3)"
    "p_replies d3 = p_replies (posts storeR ! 0)"
    by blast
  then have 2: "\<exists>s3 d3. removeReply storeR 105 (posts storeR ! 0) 99 = Inr (s3, d3)
        \<and> p_replies d3 = [reply70]"
    by (simp add: r)
  from h1 i r 1 2 show ?thesis by simp
qed


section \<open>What a toggle leaves alone\<close>

text \<open>
  Claim C9. A call of \<open>togglePostLike\<close> or \<open>togglePostDislike\<close> changes no user and
  keeps every post in its place; of a post it changes at most the like list, the dislike
  list and the update time stamp, so the content, type, image, author, city, replies
  and active flag stay as they were; and a post other than the one named by the call is
  not changed at all.
\<close>

theorem toggle_frame:
  assumes "togglePostLike s now postId userId = (s', r)
           \<or> togglePostDislike s now postId userId = (s', r)"
  shows "users s' = users s \<and> length (posts s') = length (posts s)
     \<and> (\<forall>i < length (posts s).
           p_id (posts s' ! i) = p_id (posts s ! i)
         \<and> p_content (posts s' ! i) = p_content (posts s ! i)
         \<and> p_postType (posts s' ! i) = p_postType (posts s ! i)
         \<and> p_image (posts s' ! i) = p_image (posts s ! i)
         \<and> p_author (posts s' ! i) = p_author (posts s ! i)
         \<and> p_city (posts s' ! i) = p_city (posts s ! i)
         \<and> p_replies (posts s' ! i) = p_replies (posts s ! i)
         \<and> p_isActive (posts s' ! i) = p_isActive (posts s ! i)
         \<and> p_createdAt (posts s' ! i) = p_createdAt (posts s ! i)
         \<and> (postId \<noteq> Id (p_id (posts s ! i)) \<longrightarrow> posts s' ! i = posts s ! i))"
  using assms
proof
  assume "togglePostLike s now postId userId = (s', r)"
  then have s': "s' = fst (togglePostLike s now postId userId)" by simp
  show ?thesis
    unfolding s' using togglePostLike_users[of s now postId userId]
      togglePostLike_nth[of _ s now postId userId]
    by (simp add: same_but_votes_def)
next
  assume "togglePostDislike s now postId userId = (s', r)"
  then have s': "s' = fst (togglePostDislike s now postId userId)" by simp
  show ?thesis
    unfolding s' using togglePostDislike_users[of s now postId userId]
      togglePostDislike_nth[of _ s now postId userId]
    by (simp add: same_but_votes_def)
qed

theorem toggle_frame_witness:
  "success (snd (togglePostLike store1 101 (Id 10) (Id 2)))
   \<and> p_likes (posts (fst (togglePostLike store1 101 (Id 10) (Id 2))) ! 0) = [2]
   \<and> users (fst (togglePostLike store1 101 (Id 10) (Id 2))) = users store1
   \<and> length (posts (fst (togglePostLike store1 101 (Id 10) (Id 2)))) = 1
   \<and> p_content (posts (fst (togglePostLike store1 101 (Id 10) (Id 2))) ! 0)
       = p_content (posts store1 ! 0)
   \<and> p_replies (posts (fst (togglePostLike store1 101 (Id 10) (Id 2))) ! 0)
       = p_replies (posts store1 ! 0)"
proof -
  have h: "togglePostLike store1 101 (Id 10) (Id 2)
             = (fst (togglePostLike store1 101 (Id 10) (Id 2)),
                snd (togglePostLike store1 101 (Id 10) (Id 2)))"
    by simp
  have l: "length (posts store1) = 1" by code_simp
  have e1: "success (snd (togglePostLike store1 101 (Id 10) (Id 2)))" by code_simp
  have e2: "p_likes (posts (fst (togglePostLike store1 101 (Id 10) (Id 2))) ! 0) = [2]"
    by code_simp
  from toggle_frame[OF disjI1, OF h] l e1 e2 show ?thesis by simp
qed

section \<open>The home feed of a user without a city\<close>

text \<open>
  Claim C10. Let an active user's stored city be empty, absent or blank, and let the
  caller give no city, an empty one or a blank one. Then \<open>getUserCityFeed\<close> is
  \<open>getPostsFeed\<close> on the query without a city; the filter it builds has no city key;
  and with no other filter it returns all active posts, of every city.
\<close>

theorem empty_city_is_no_constraint:
  assumes "users s uid = Some usr" and "u_isActive usr"
    and "\<not> truthy (map_option trim (u_city usr))"
    and "\<not> truthy (map_option trim (q_city q))"
  shows "getUserCityFeed rx s (Id uid) q = getPostsFeed rx s (q\<lparr>q_city := None\<rparr>)
     \<and> (\<forall>f. buildFilter (q\<lparr>q_city := (if truthy (q_city q) then q_city q else u_city usr)\<rparr>)
               = Inr f \<longrightarrow> f_city f = None)
     \<and> (q_postType q = None \<and> q_author q = NoId \<and> q_search q = None \<longrightarrow>
          set (feedPosts (getUserCityFeed rx s (Id uid) q)) = {p \<in> set (posts s). p_isActive p})"
proof -
  let ?x = "if truthy (q_city q) then q_city q else u_city usr"
  have x: "\<not> truthy (map_option trim ?x)" using assms(3,4) by simp
  have e: "getUserCityFeed rx s (Id uid) q = getPostsFeed rx s (q\<lparr>q_city := None\<rparr>)"
    unfolding getUserCityFeed_active[OF assms(1,2)]
    by (rule getPostsFeed_cong) (simp_all add: buildFilter_no_city[OF x])
  have f: "\<forall>f. buildFilter (q\<lparr>q_city := ?x\<rparr>) = Inr f \<longrightarrow> f_city f = None"
    unfolding buildFilter_no_city[OF x]
    by (auto simp: buildFilter_def truthy_def split: idarg.splits)
  have p: "q_postType q = None \<and> q_author q = NoId \<and> q_search q = None \<longrightarrow>
          set (feedPosts (getUserCityFeed rx s (Id uid) q)) = {p \<in> set (posts s). p_isActive p}"
  proof
    assume h: "q_postType q = None \<and> q_author q = NoId \<and> q_search q = None"
    have "set (feedPosts (getPostsFeed rx s (q\<lparr>q_city := None\<rparr>))) =
     {p \<in> set (posts s). p_isActive p
        \<and> (truthy (map_option trim (q_city (q\<lparr>q_city := None\<rparr>)))
             \<longrightarrow> p_city p = map_option trim (q_city (q\<lparr>q_city := None\<rparr>)))}"
      using h by (intro feed_plain) simp_all
    then show "set (feedPosts (getUserCityFeed rx s (Id uid) q)) = {p \<in> set (posts s). p_isActive p}"
      by (simp add: e truthy_def)
  qed
  from e f p show ?thesis by blast
qed

theorem empty_city_is_no_constraint_witness:
  "users storeF 4 = Some user_D \<and> u_city user_D = Some []
   \<and> map (\<lambda>p. (p_id p, p_city p)) (feedPosts (getUserCityFeed (\<lambda>_. None) storeF (Id 4) noFilter))
       = [(11, Some ''Austin''), (10, Some ''Austin'')]
   \<and> set (feedPosts (getUserCityFeed (\<lambda>_. None) storeF (Id 4) noFilter))
       = {p \<in> set (posts storeF). p_isActive p}
   \<and> getUserCityFeed (\<lambda>_. None) storeF (Id 4) (noFilter\<lparr>q_city := Some ''  ''\<rparr>)
       = getPostsFeed (\<lambda>_. None) storeF noFilter"
proof -
  have u: "users storeF 4 = Some user_D" by code_simp
  have a: "u_isActive user_D" by code_simp
  have c: "u_city user_D = Some []" by code_simp
  have uc: "\<not> truthy (map_option trim (u_city user_D))" by code_simp
  have q1: "\<not> truthy (map_option trim (q_city noFilter))" by code_simp
  have q2: "\<not> truthy (map_option trim (q_city (noFilter\<lparr>q_city := Some ''  ''\<rparr>)))" by code_simp
  have p: "q_postType noFilter = None \<and> q_author noFilter = NoId \<and> q_search noFilter = None"
    by (simp add: noFilter_def)
  have n: "noFilter\<lparr>q_city := None\<rparr> = noFilter" by (simp add: noFilter_def)
  have e: "map (\<lambda>p. (p_id p, p_city p))
             (feedPosts (getUserCityFeed (\<lambda>_. None) storeF (Id 4) noFilter))
       = [(11, Some ''Austin''), (10, Some ''Austin'')]"
    by code_simp
  from empty_city_is_no_constraint[OF u a uc q1, of "\<lambda>_. None"] p
  have 1: "set (feedPosts (getUserCityFeed (\<lambda>_. None) storeF (Id 4) noFilter))
       = {p \<in> set (posts storeF). p_isActive p}"
    by blast
  from empty_city_is_no_constraint[OF u a uc q2, of "\<lambda>_. None"]
  have 2: "getUserCityFeed (\<lambda>_. None) storeF (Id 4) (noFilter\<lparr>q_city := Some ''  ''\<rparr>)
       = getPostsFeed (\<lambda>_. None) storeF noFilter"
    by (simp add: n)
  from u c e 1 2 show ?thesis by blast
qed


end
